theory Spec2Isabelle
  imports Main "HOL-Library.AList" "HOL-Library.Word"
begin

section \<open>Status documents\<close>

text \<open>
  \<open>collect_status\<close> returns what \<open>json.loads\<close> produced: a tree whose leaves are
  \<open>None\<close>, booleans, integers, floats and strings, and whose inner nodes are \<open>dict\<close>s
  (insertion ordered, keyed by strings) and \<open>list\<close>s. A float is carried as the bit
  pattern of its double; the collector never computes with it.
\<close>

datatype scalar =
    SNone
  | SBool bool
  | SInt int
  | SFloat "64 word"
  | SStr string

datatype json =
    Scalar scalar
  | Dict "(string \<times> json) list"
  | List "json list"

text \<open>
  A flat \<open>dict\<close> of the program is an association list in insertion order.
  \<open>d[k] = v\<close> replaces the value of an existing key where it stands and appends a new
  key at the end; \<open>d.update(other)\<close> assigns the entries of \<open>other\<close> in their order.
\<close>

type_synonym flat = "(string \<times> scalar) list"

definition setitem :: "flat \<Rightarrow> string \<Rightarrow> scalar \<Rightarrow> flat" where
  "setitem d k v = AList.update k v d"

definition update_dict :: "flat \<Rightarrow> flat \<Rightarrow> flat" where
  "update_dict d other = fold (\<lambda>(k, v) acc. setitem acc k v) other d"

subsection \<open>\<open>str(i)\<close> for a list index\<close>

definition digit_char :: "nat \<Rightarrow> char" where
  "digit_char d = ''0123456789'' ! d"

function str_nat :: "nat \<Rightarrow> string" where
  "str_nat n = (if n < 10 then [digit_char n] else str_nat (n div 10) @ [digit_char (n mod 10)])"
  by pat_completeness auto
termination
  by (relation "measure id") auto

declare str_nat.simps [simp del]

subsection \<open>\<open>TailscaleCollector._flatten_dict\<close>\<close>

text \<open>
  The two f-strings that build a child key. A Python string is true when it is not
  empty. The \<open>dict\<close> branch joins with \<open>sep\<close>, the \<open>list\<close> branch with a literal
  underscore.
\<close>

definition dict_new_key :: "string \<Rightarrow> string \<Rightarrow> string \<Rightarrow> string" where
  "dict_new_key parent_key sep k = (if parent_key \<noteq> [] then parent_key @ sep @ k else k)"

definition list_new_key :: "string \<Rightarrow> nat \<Rightarrow> string" where
  "list_new_key parent_key i =
     (if parent_key \<noteq> [] then parent_key @ ''_'' @ str_nat i else str_nat i)"

lemma size_dict_child:
  "(k, v) \<in> set kvs \<Longrightarrow> size v < Suc (size_list (size_prod (\<lambda>_. 0) size) kvs)"
  by (induction kvs) auto

lemma size_list_child:
  "(i, item) \<in> set (enumerate n xs) \<Longrightarrow> size item < Suc (size_list size xs)"
proof -
  assume "(i, item) \<in> set (enumerate n xs)"
  then have "item \<in> set xs"
    by (auto simp: in_set_enumerate_eq)
  then show ?thesis
    by (induction xs) auto
qed

function flatten_dict :: "json \<Rightarrow> string \<Rightarrow> string \<Rightarrow> flat" where
  "flatten_dict (Dict kvs) parent_key sep =
     fold (\<lambda>(k, v) items.
            (case v of
               Scalar s \<Rightarrow> setitem items (dict_new_key parent_key sep k) s
             | _ \<Rightarrow> update_dict items (flatten_dict v (dict_new_key parent_key sep k) sep)))
          kvs []"
| "flatten_dict (List xs) parent_key sep =
     fold (\<lambda>(i, item) items.
            (case item of
               Scalar s \<Rightarrow> setitem items (list_new_key parent_key i) s
             | _ \<Rightarrow> update_dict items (flatten_dict item (list_new_key parent_key i) sep)))
          (enumerate 0 xs) []"
| "flatten_dict (Scalar s) parent_key sep = setitem [] parent_key s"
  by pat_completeness auto
termination
  by (relation "measure (\<lambda>(obj, parent_key, sep). size obj)")
     (auto dest: size_dict_child size_list_child)

declare flatten_dict.simps [simp del]


section \<open>Reading decimal numerals back\<close>

text \<open>\<open>int(s)\<close> on a string of decimal digits; used to show that \<open>str\<close> loses nothing.\<close>

definition digit_val :: "char \<Rightarrow> nat" where
  "digit_val c = of_char c - 48"

definition nat_of_digits :: "string \<Rightarrow> nat" where
  "nat_of_digits s = foldl (\<lambda>acc c. 10 * acc + digit_val c) 0 s"

section \<open>Capture time\<close>

text \<open>
  What \<open>datetime.now()\<close> returns: a naive local date and time. The program reads the
  clock itself, so every function that does takes the reading as an argument.
\<close>

record datetime =
  year :: nat
  month :: nat
  day :: nat
  hour :: nat
  minute :: nat
  second :: nat
  microsecond :: nat

text \<open>\<open>'%0wd' % n\<close>: decimal, padded with zeros on the left to at least \<open>w\<close> characters.\<close>

definition zfill :: "nat \<Rightarrow> nat \<Rightarrow> string" where
  "zfill w n = replicate (w - length (str_nat n)) CHR ''0'' @ str_nat n"

text \<open>
  \<open>datetime.isoformat()\<close> with its default arguments: seconds, and microseconds only
  when they are not zero.
\<close>

definition isoformat :: "datetime \<Rightarrow> string" where
  "isoformat dt =
     zfill 4 (year dt) @ ''-'' @ zfill 2 (month dt) @ ''-'' @ zfill 2 (day dt) @ ''T''
     @ zfill 2 (hour dt) @ '':'' @ zfill 2 (minute dt) @ '':'' @ zfill 2 (second dt)
     @ (if microsecond dt \<noteq> 0 then ''.'' @ zfill 6 (microsecond dt) else [])"

text \<open>The ranges of the fields of a \<open>datetime\<close> (days not refined by month).\<close>

definition valid_datetime :: "datetime \<Rightarrow> bool" where
  "valid_datetime dt \<longleftrightarrow>
     1 \<le> year dt \<and> year dt \<le> 9999 \<and> 1 \<le> month dt \<and> month dt \<le> 12
     \<and> 1 \<le> day dt \<and> day dt \<le> 31 \<and> hour dt < 24 \<and> minute dt < 60 \<and> second dt < 60
     \<and> microsecond dt < 1000000"

subsection \<open>\<open>TailscaleCollector._prepare_record\<close>\<close>

text \<open>\<open>_flatten_dict\<close> is called with its defaults: empty parent key, separator \<open>_\<close>.\<close>

definition prepare_record :: "json \<Rightarrow> datetime \<Rightarrow> flat" where
  "prepare_record status_data now =
     setitem (flatten_dict status_data [] ''_'') ''_timestamp'' (SStr (isoformat now))"

subsection \<open>Reading an ISO-8601 timestamp\<close>

text \<open>
  The format \<open>YYYY-MM-DDTHH:MM:SS\<close>, optionally followed by \<open>.ffffff\<close>, read back into
  its fields; \<open>None\<close> for any other string. It states what it means for a string to
  hold a capture time of at least second precision.
\<close>

definition is_digit :: "char \<Rightarrow> bool" where
  "is_digit c \<longleftrightarrow> c \<in> set ''0123456789''"

definition parse_iso8601 :: "string \<Rightarrow> datetime option" where
  "parse_iso8601 s =
     (if (length s = 19 \<or> (length s = 26 \<and> s ! 19 = CHR ''.''))
         \<and> s ! 4 = CHR ''-'' \<and> s ! 7 = CHR ''-'' \<and> s ! 10 = CHR ''T''
         \<and> s ! 13 = CHR '':'' \<and> s ! 16 = CHR '':''
         \<and> list_all is_digit
              (take 4 s @ take 2 (drop 5 s) @ take 2 (drop 8 s) @ take 2 (drop 11 s)
               @ take 2 (drop 14 s) @ take 2 (drop 17 s) @ drop 20 s)
      then Some \<lparr> year = nat_of_digits (take 4 s),
                  month = nat_of_digits (take 2 (drop 5 s)),
                  day = nat_of_digits (take 2 (drop 8 s)),
                  hour = nat_of_digits (take 2 (drop 11 s)),
                  minute = nat_of_digits (take 2 (drop 14 s)),
                  second = nat_of_digits (take 2 (drop 17 s)),
                  microsecond = nat_of_digits (drop 20 s) \<rparr>
      else None)"

section \<open>Exceptions\<close>

text \<open>
  The exceptions the modelled code raises, as values; a function that can raise returns
  \<open>pyerror + 'a\<close>. \<open>IOFailure\<close> stands for whatever the file system or the parquet
  engine raises when the state of the store does not allow an operation.
  \<open>NotModelled\<close> marks the one place where the model stops short of Python: a
  \<open>{date...}\<close> field with a conversion, a format specification, an index or an
  attribute.
\<close>

datatype pyerror =
    ValueError string
  | KeyError string
  | IndexError string
  | TypeError string
  | AttributeError string
  | FileNotFoundError string
  | IOFailure string
  | NotModelled string

section \<open>Doubles\<close>

text \<open>
  A float is an IEEE 754 double, carried as its 64 bits: the sign, eleven bits of
  exponent, fifty-two of fraction. A NaN has every exponent bit set and a fraction that
  is not zero. \<open>x <= 0\<close> holds of the negative doubles, with minus infinity, and of both
  zeros; every comparison with a NaN is false.
\<close>

definition isnan :: "64 word \<Rightarrow> bool" where
  "isnan w \<longleftrightarrow> 0x7FF0000000000000 < take_bit 63 w"

definition float_le_zero :: "64 word \<Rightarrow> bool" where
  "float_le_zero w \<longleftrightarrow> \<not> isnan w \<and> (0x8000000000000000 \<le> w \<or> w = 0)"

section \<open>What the program calls: formatting, paths, frames, the store\<close>

subsection \<open>\<open>now.strftime("%Y%m%d")\<close>\<close>

text \<open>
  The year in four digits, as the documentation of \<open>%Y\<close> has it; a C library that does
  not pad years below 1000 is not modelled.
\<close>

definition strftime_Ymd :: "datetime \<Rightarrow> string" where
  "strftime_Ymd dt = zfill 4 (year dt) @ zfill 2 (month dt) @ zfill 2 (day dt)"

subsection \<open>\<open>self.file_name_format.format(date=date_str)\<close>\<close>

text \<open>
  \<open>str.format\<close> with the one keyword argument \<open>date\<close>. Literal text is copied,
  \<open>{{\<close> and \<open>}}\<close> give one brace, a single brace is a \<open>ValueError\<close>, and a
  replacement field runs to its matching closing brace. The field \<open>{date}\<close> gives the
  date; a field that names another argument is a \<open>KeyError\<close>, a positional field
  (empty or a number) an \<open>IndexError\<close>, since no positional argument is passed.
  \<open>field_split n s\<close> cuts \<open>s\<close> after the brace that closes the field, \<open>n\<close> braces being
  open inside it.
\<close>

fun field_split :: "nat \<Rightarrow> string \<Rightarrow> (string \<times> string) option" where
  "field_split n [] = None"
| "field_split n (c # cs) =
     (if c = CHR ''}'' then
        (case n of
           0 \<Rightarrow> Some ([], cs)
         | Suc m \<Rightarrow> map_option (apfst ((#) c)) (field_split m cs))
      else if c = CHR ''{'' then map_option (apfst ((#) c)) (field_split (Suc n) cs)
      else map_option (apfst ((#) c)) (field_split n cs))"

definition get_field :: "string \<Rightarrow> string \<Rightarrow> pyerror + string" where
  "get_field field date =
     (let arg_name = takeWhile (\<lambda>c. c \<notin> set ''.[!:'') field in
      if arg_name = [] \<or> list_all is_digit arg_name
        then Inl (IndexError ''Replacement index out of range for positional args tuple'')
      else if arg_name \<noteq> ''date'' then Inl (KeyError arg_name)
      else if field = ''date'' then Inr date
      else Inl (NotModelled field))"

lemma field_split_shorter: "field_split n cs = Some (f, rest) \<Longrightarrow> length rest < length cs"
  by (induction n cs arbitrary: f rule: field_split.induct)
     (fastforce split: if_splits nat.splits)+

function format_date :: "string \<Rightarrow> string \<Rightarrow> pyerror + string" where
  "format_date [] date = Inr []"
| "format_date (c # cs) date =
     (if c = CHR ''{'' then
        (case cs of
           [] \<Rightarrow> Inl (ValueError ''Single { encountered in format string'')
         | c' # cs' \<Rightarrow>
             if c' = CHR ''{'' then map_sum id ((#) c) (format_date cs' date)
             else (case field_split 0 cs of
                     None \<Rightarrow> Inl (ValueError ''expected } before end of string'')
                   | Some (field, rest) \<Rightarrow>
                       (case get_field field date of
                          Inl e \<Rightarrow> Inl e
                        | Inr s \<Rightarrow> map_sum id ((@) s) (format_date rest date))))
      else if c = CHR ''}'' then
        (case cs of
           [] \<Rightarrow> Inl (ValueError ''Single } encountered in format string'')
         | c' # cs' \<Rightarrow>
             if c' = CHR ''}'' then map_sum id ((#) c) (format_date cs' date)
             else Inl (ValueError ''Single } encountered in format string''))
      else map_sum id ((#) c) (format_date cs date))"
  by pat_completeness auto
termination
  by (relation "measure (\<lambda>(fmt, date). length fmt)")
     (auto dest: field_split_shorter simp del: field_split.simps)

declare format_date.simps [simp del]

subsection \<open>Paths\<close>

text \<open>
  A \<open>pathlib\<close> path on a POSIX system: the root (empty, \<open>/\<close> or \<open>//\<close>) and the
  components after it. \<open>Path s\<close> drops empty components and \<open>.\<close>; exactly two leading
  slashes are kept as the root \<open>//\<close>. \<open>joinpath p key\<close> is \<open>p / key\<close>: an absolute
  \<open>key\<close> replaces \<open>p\<close>.
\<close>

record path =
  root :: string
  parts :: "string list"

text \<open>\<open>s.split('/')\<close>; the result is never empty.\<close>

fun split_slash :: "string \<Rightarrow> string list" where
  "split_slash [] = [[]]"
| "split_slash (c # cs) =
     (case split_slash cs of
        x # xs \<Rightarrow> if c = CHR ''/'' then [] # x # xs else (c # x) # xs
      | [] \<Rightarrow> [[c]])"

text \<open>\<open>'/'.join(parts)\<close>\<close>

fun join_slash :: "string list \<Rightarrow> string" where
  "join_slash [] = []"
| "join_slash [p] = p"
| "join_slash (p # q # ps) = p @ ''/'' @ join_slash (q # ps)"

definition Path :: "string \<Rightarrow> path" where
  "Path s =
     \<lparr> root = (if take 1 s \<noteq> ''/'' then []
               else if take 1 (drop 1 s) \<noteq> ''/'' \<or> take 1 (drop 2 s) = ''/'' then ''/''
               else ''//''),
       parts = filter (\<lambda>x. x \<noteq> [] \<and> x \<noteq> ''.'') (split_slash s) \<rparr>"

definition joinpath :: "path \<Rightarrow> string \<Rightarrow> path" where
  "joinpath p key =
     (let q = Path key in
      if root q \<noteq> [] then q else p \<lparr> parts := parts p @ parts q \<rparr>)"

definition str_path :: "path \<Rightarrow> string" where
  "str_path p = (if root p = [] \<and> parts p = [] then ''.'' else root p @ join_slash (parts p))"

definition parent :: "path \<Rightarrow> path" where
  "parent p = p \<lparr> parts := butlast (parts p) \<rparr>"

subsection \<open>Frames\<close>

text \<open>
  A \<open>pandas.DataFrame\<close> with the default index: the column names in order and the rows,
  each a list of cells aligned with the columns. \<open>SNone\<close> is the missing value
  (pandas writes \<open>NaN\<close> or \<open>None\<close> according to the column's type). Column types are
  not modelled: a value is what it was in the record, where pandas may store an integer
  column that has a missing value as floats.
\<close>

record dataframe =
  columns :: "string list"
  rows :: "scalar list list"

text \<open>The cell of a row under a column name, the missing value when the row has none.\<close>

definition lookup :: "string list \<Rightarrow> scalar list \<Rightarrow> string \<Rightarrow> scalar" where
  "lookup cols row c = (case map_of (zip cols row) c of Some v \<Rightarrow> v | None \<Rightarrow> SNone)"


text \<open>The columns of several frames or records: in order of first appearance.\<close>

definition union_columns :: "string list list \<Rightarrow> string list" where
  "union_columns css = foldl (\<lambda>cols cs. cols @ filter (\<lambda>c. c \<notin> set cols) cs) [] css"

text \<open>\<open>pd.DataFrame(records)\<close> for a list of dicts.\<close>

definition DataFrame :: "flat list \<Rightarrow> dataframe" where
  "DataFrame records =
     (let cols = union_columns (map (map fst) records) in
      \<lparr> columns = cols,
        rows = map (\<lambda>r. map (\<lambda>c. case map_of r c of Some v \<Rightarrow> v | None \<Rightarrow> SNone) cols) records \<rparr>)"

text \<open>\<open>pd.concat(dfs, ignore_index=True)\<close>: outer join of the columns, rows in order.\<close>

definition reindex :: "string list \<Rightarrow> string list \<Rightarrow> scalar list \<Rightarrow> scalar list" where
  "reindex old new row = map (lookup old row) new"

definition pd_concat :: "dataframe list \<Rightarrow> dataframe" where
  "pd_concat dfs =
     (let cols = union_columns (map columns dfs) in
      \<lparr> columns = cols,
        rows = concat (map (\<lambda>df. map (reindex (columns df) cols) (rows df)) dfs) \<rparr>)"

subsection \<open>The store\<close>

text \<open>
  The part of the file system the program touches: the directories that exist and the
  files, each a parquet file holding a frame, a YAML file standing for the document
  \<open>yaml.safe_load\<close> reads from it, or something else. Reading a parquet file gives the
  frame that was written. Failures that do not come from this state (permissions, a
  full disk, values the parquet engine cannot encode) are not modelled.
\<close>

datatype content = Parquet dataframe | Yaml json | Other

record filesystem =
  dirs :: "path set"
  files :: "path \<rightharpoonup> content"

text \<open>
  \<open>mkdir(parents=True, exist_ok=True)\<close> creates the directory and its missing ancestors,
  and fails when one of them exists as a file.
\<close>

definition ancestors :: "path \<Rightarrow> path list" where
  "ancestors p = map (\<lambda>n. p \<lparr> parts := take n (parts p) \<rparr>) [0..<length (parts p)]"

definition mkdir_parents :: "path \<Rightarrow> filesystem \<Rightarrow> pyerror + filesystem" where
  "mkdir_parents p fs =
     (if list_ex (\<lambda>q. files fs q \<noteq> None) (ancestors p @ [p])
      then Inl (IOFailure ''mkdir: a file is in the way'')
      else Inr (fs \<lparr> dirs := dirs fs \<union> set (ancestors p @ [p]) \<rparr>))"

text \<open>\<open>file_path.exists()\<close> holds of files and of directories.\<close>

definition exists :: "path \<Rightarrow> filesystem \<Rightarrow> bool" where
  "exists p fs \<longleftrightarrow> p \<in> dirs fs \<or> files fs p \<noteq> None"

definition read_parquet :: "path \<Rightarrow> filesystem \<Rightarrow> pyerror + dataframe" where
  "read_parquet p fs =
     (case files fs p of
        Some (Parquet df) \<Rightarrow> Inr df
      | _ \<Rightarrow> Inl (IOFailure ''read_parquet: not a readable parquet file''))"

definition to_parquet :: "dataframe \<Rightarrow> path \<Rightarrow> filesystem \<Rightarrow> pyerror + filesystem" where
  "to_parquet df p fs =
     (if p \<in> dirs fs \<or> parent p \<notin> dirs fs
      then Inl (IOFailure ''to_parquet: cannot open the file for writing'')
      else Inr (fs \<lparr> files := (files fs)(p \<mapsto> Parquet df) \<rparr>))"

section \<open>Configuration\<close>

text \<open>
  \<open>Config\<close> is a dataclass whose \<open>__post_init__\<close> validates the interval and creates
  the base location. Its fields arrive unchecked from the YAML document, so the
  constructor takes document values and keeps them as they are. \<open>interval <= 0\<close> is
  defined on integers, on booleans (\<open>True\<close> is 1) and on floats, and raises \<open>TypeError\<close>
  on \<open>None\<close>, strings, lists and mappings; \<open>Path(base_location)\<close> accepts a string.
\<close>

record config =
  interval :: json
  base_location :: path
  file_name_format :: json

definition le_zero :: "json \<Rightarrow> pyerror + bool" where
  "le_zero v =
     (case v of
        Scalar (SInt i) \<Rightarrow> Inr (i \<le> 0)
      | Scalar (SBool b) \<Rightarrow> Inr (\<not> b)
      | Scalar (SFloat w) \<Rightarrow> Inr (float_le_zero w)
      | _ \<Rightarrow> Inl (TypeError ''<= not supported between these instances''))"

definition as_path :: "json \<Rightarrow> pyerror + path" where
  "as_path v =
     (case v of
        Scalar (SStr s) \<Rightarrow> Inr (Path s)
      | _ \<Rightarrow> Inl (TypeError ''expected str, bytes or os.PathLike object''))"

definition Config :: "json \<Rightarrow> json \<Rightarrow> json \<Rightarrow> filesystem \<Rightarrow> (pyerror + config) \<times> filesystem" where
  "Config interval' base_location' file_name_format' fs =
     (case le_zero interval' of
        Inl e \<Rightarrow> (Inl e, fs)
      | Inr nonpositive \<Rightarrow>
          if nonpositive then (Inl (ValueError ''interval must be greater than 0''), fs)
          else
            (case as_path base_location' of
               Inl e \<Rightarrow> (Inl e, fs)
             | Inr p \<Rightarrow>
                 (case mkdir_parents p fs of
                    Inl e \<Rightarrow> (Inl e, fs)
                  | Inr fs' \<Rightarrow>
                      (Inr \<lparr> interval = interval', base_location = p,
                              file_name_format = file_name_format' \<rparr>,
                       fs'))))"

subsection \<open>\<open>load_config\<close>\<close>

text \<open>
  \<open>yaml.safe_load\<close> gives whatever document the file holds, \<open>None\<close> for an empty file.
  \<open>field in config_dict\<close> asks a mapping for a key, a sequence for an element and a
  text for a substring; a number or a boolean is not iterable, and the test raises.
\<close>

fun contains_str :: "string \<Rightarrow> string \<Rightarrow> bool" where
  "contains_str [] sub = (sub = [])"
| "contains_str (c # cs) sub = (take (length sub) (c # cs) = sub \<or> contains_str cs sub)"

definition py_in :: "string \<Rightarrow> json \<Rightarrow> pyerror + bool" where
  "py_in field config_dict =
     (case config_dict of
        Dict kvs \<Rightarrow> Inr (field \<in> fst ` set kvs)
      | List xs \<Rightarrow> Inr (Scalar (SStr field) \<in> set xs)
      | Scalar (SStr s) \<Rightarrow> Inr (contains_str s field)
      | _ \<Rightarrow> Inl (TypeError ''argument is not iterable''))"

definition required_fields :: "string list" where
  "required_fields = [''interval'', ''base_location'']"

text \<open>\<open>[field for field in fields if field not in config_dict]\<close>\<close>

fun fields_not_in :: "string list \<Rightarrow> json \<Rightarrow> pyerror + string list" where
  "fields_not_in [] config_dict = Inr []"
| "fields_not_in (field # others) config_dict =
     (case py_in field config_dict of
        Inl e \<Rightarrow> Inl e
      | Inr present \<Rightarrow>
          (case fields_not_in others config_dict of
             Inl e \<Rightarrow> Inl e
           | Inr rest \<Rightarrow> Inr (if present then rest else field # rest)))"

definition missing_fields :: "json \<Rightarrow> pyerror + string list" where
  "missing_fields config_dict = fields_not_in required_fields config_dict"

text \<open>\<open>config_dict[key]\<close> and \<open>config_dict.get(key, default)\<close>\<close>

definition getitem :: "json \<Rightarrow> string \<Rightarrow> pyerror + json" where
  "getitem config_dict key =
     (case config_dict of
        Dict kvs \<Rightarrow> (case map_of kvs key of Some v \<Rightarrow> Inr v | None \<Rightarrow> Inl (KeyError key))
      | List xs \<Rightarrow> Inl (TypeError ''list indices must be integers or slices, not str'')
      | Scalar (SStr s) \<Rightarrow> Inl (TypeError ''string indices must be integers, not str'')
      | _ \<Rightarrow> Inl (TypeError ''object is not subscriptable''))"

definition get_default :: "json \<Rightarrow> string \<Rightarrow> json \<Rightarrow> pyerror + json" where
  "get_default config_dict key dflt =
     (case config_dict of
        Dict kvs \<Rightarrow> Inr (case map_of kvs key of Some v \<Rightarrow> v | None \<Rightarrow> dflt)
      | _ \<Rightarrow> Inl (AttributeError ''object has no attribute get''))"

text \<open>\<open>', '.join(fields)\<close>\<close>

fun join_comma :: "string list \<Rightarrow> string" where
  "join_comma [] = []"
| "join_comma [x] = x"
| "join_comma (x # y # ys) = x @ '', '' @ join_comma (y # ys)"

definition quoted :: "string \<Rightarrow> string" where
  "quoted s = CHR 0x27 # s @ [CHR 0x27]"

definition not_found_message :: "path \<Rightarrow> string" where
  "not_found_message config_path =
     ''Configuration file not found at '' @ str_path config_path @ ''. ''
     @ ''Please create it with '' @ quoted ''interval'' @ '', '' @ quoted ''base_location''
     @ '', and optionally '' @ quoted ''file_name_format'' @ ''.''"

text \<open>\<open>home\<close> is \<open>Path.home()\<close>.\<close>

definition config_file :: "path option \<Rightarrow> path \<Rightarrow> path" where
  "config_file config_path home =
     (case config_path of
        Some p \<Rightarrow> p
      | None \<Rightarrow> joinpath (joinpath home ''.config'') ''ts-status.yml'')"

text \<open>Lines 57 to 80: the configuration that a document gives.\<close>

definition config_of_document :: "json \<Rightarrow> filesystem \<Rightarrow> (pyerror + config) \<times> filesystem" where
  "config_of_document config_dict fs =
     (if config_dict = Scalar SNone
      then (Inl (ValueError ''Configuration file is empty''), fs)
      else
        (case missing_fields config_dict of
           Inl e \<Rightarrow> (Inl e, fs)
         | Inr missing \<Rightarrow>
             if missing \<noteq> []
             then (Inl (ValueError (''Configuration is missing required fields: ''
                                     @ join_comma missing)), fs)
             else
               (case getitem config_dict ''interval'' of
                  Inl e \<Rightarrow> (Inl e, fs)
                | Inr interval' \<Rightarrow>
                    (case getitem config_dict ''base_location'' of
                       Inl e \<Rightarrow> (Inl e, fs)
                     | Inr base_location' \<Rightarrow>
                         (case get_default config_dict ''file_name_format''
                                 (Scalar (SStr ''tailscale-status-{date}.parquet'')) of
                            Inl e \<Rightarrow> (Inl e, fs)
                          | Inr file_name_format' \<Rightarrow>
                              Config interval' base_location' file_name_format' fs)))))"

definition load_config :: "path option \<Rightarrow> path \<Rightarrow> filesystem \<Rightarrow> (pyerror + config) \<times> filesystem" where
  "load_config config_path home fs =
     (let config_path = config_file config_path home in
      if \<not> exists config_path fs
      then (Inl (FileNotFoundError (not_found_message config_path)), fs)
      else
        (case files fs config_path of
           Some (Yaml config_dict) \<Rightarrow> config_of_document config_dict fs
         | _ \<Rightarrow> (Inl (IOFailure ''the file cannot be read as YAML''), fs)))"

section \<open>\<open>TailscaleCollector.save_status\<close>\<close>

record collector =
  base_location :: path
  file_name_format :: string

text \<open>Lines 126 to 131: the frame to write, the stored rows first when the file exists.\<close>

definition frame_to_write :: "path \<Rightarrow> filesystem \<Rightarrow> dataframe \<Rightarrow> pyerror + dataframe" where
  "frame_to_write file_path fs df =
     (if exists file_path fs
      then (case read_parquet file_path fs of
              Inl e \<Rightarrow> Inl e
            | Inr existing_df \<Rightarrow> Inr (pd_concat [existing_df, df]))
      else Inr df)"

text \<open>
  \<open>save_status\<close> reads the clock twice: \<open>now\<close> at its start, for the path, and \<open>now'\<close>
  inside \<open>_prepare_record\<close>, for the timestamp. It returns the path or the exception
  raised, and the store as the call left it.
\<close>

definition save_status ::
  "collector \<Rightarrow> datetime \<Rightarrow> datetime \<Rightarrow> json \<Rightarrow> filesystem \<Rightarrow> (pyerror + path) \<times> filesystem"
where
  "save_status self now now' status_data fs =
     (let year_month_path =
            joinpath (joinpath (base_location self) (str_nat (year now))) (zfill 2 (month now))
      in
      case mkdir_parents year_month_path fs of
        Inl e \<Rightarrow> (Inl e, fs)
      | Inr fs1 \<Rightarrow>
          (let date_str = strftime_Ymd now in
           case format_date (file_name_format self) date_str of
             Inl e \<Rightarrow> (Inl e, fs1)
           | Inr filename \<Rightarrow>
               (let file_path = joinpath year_month_path filename;
                    rcd = prepare_record status_data now'
                in
                case frame_to_write file_path fs1 (DataFrame [rcd]) of
                  Inl e \<Rightarrow> (Inl e, fs1)
                | Inr df \<Rightarrow>
                    (case to_parquet df file_path fs1 of
                       Inl e \<Rightarrow> (Inl e, fs1)
                     | Inr fs2 \<Rightarrow> (Inr file_path, fs2)))))"

subsection \<open>The template as the configuration describes it\<close>

text \<open>
  The configuration surface speaks of a template with a \<open>{date}\<close> placeholder that is
  replaced by the date. \<open>replace_date\<close> is that reading, \<open>tmpl.replace("{date}", date)\<close>,
  and \<open>plain_template\<close> holds of the templates on which it is unambiguous: every brace
  belongs to a \<open>{date}\<close>.
\<close>

definition at_placeholder :: "string \<Rightarrow> bool" where
  "at_placeholder s \<longleftrightarrow> take 6 s = ''{date}''"

function replace_date :: "string \<Rightarrow> string \<Rightarrow> string" where
  "replace_date [] date = []"
| "replace_date (c # cs) date =
     (if at_placeholder (c # cs) then date @ replace_date (drop 5 cs) date
      else c # replace_date cs date)"
  by pat_completeness auto
termination
  by (relation "measure (\<lambda>(tmpl, date). length tmpl)") auto

function plain_template :: "string \<Rightarrow> bool" where
  "plain_template [] = True"
| "plain_template (c # cs) =
     (if at_placeholder (c # cs) then plain_template (drop 5 cs)
      else c \<noteq> CHR ''{'' \<and> c \<noteq> CHR ''}'' \<and> plain_template cs)"
  by pat_completeness auto
termination
  by (relation "measure length") auto

declare replace_date.simps [simp del]
declare plain_template.simps [simp del]

(*DEFS_END*)

section \<open>Flat dictionaries\<close>

lemma map_of_setitem: "map_of (setitem d k v) = (map_of d)(k \<mapsto> v)"
  by (simp add: setitem_def update_conv')

lemma distinct_setitem: "distinct (map fst d) \<Longrightarrow> distinct (map fst (setitem d k v))"
  by (simp add: setitem_def distinct_update)

lemma distinct_update_dict: "distinct (map fst d) \<Longrightarrow> distinct (map fst (update_dict d other))"
  unfolding update_dict_def
  by (induction other arbitrary: d) (auto simp: distinct_setitem)

lemma update_dict_Nil: "update_dict d [] = d"
  by (simp add: update_dict_def)

text \<open>
  \<open>update\<close> behaves as a right-biased merge when the argument is a dictionary, that is,
  has no key twice.
\<close>

lemma map_of_update_dict:
  "distinct (map fst other) \<Longrightarrow> map_of (update_dict d other) = map_of d ++ map_of other"
  unfolding update_dict_def
proof (induction other arbitrary: d)
  case Nil
  then show ?case by simp
next
  case (Cons p other)
  obtain k v where p: "p = (k, v)" by (cases p)
  from Cons.prems p have k: "k \<notin> fst ` set other" and d: "distinct (map fst other)"
    by auto
  have "map_of other k = None"
    using k by (simp add: map_of_eq_None_iff)
  then have "(map_of d)(k \<mapsto> v) ++ map_of other = map_of d ++ (map_of other)(k \<mapsto> v)"
    by (auto simp: map_add_def fun_eq_iff split: option.splits)
  moreover have "map_of (p # other) = (map_of other)(k \<mapsto> v)"
    using p by simp
  moreover have "fold (\<lambda>(k, v) acc. setitem acc k v) (p # other) d
      = fold (\<lambda>(k, v) acc. setitem acc k v) other (setitem d k v)"
    using p by simp
  ultimately show ?case
    using Cons.IH [OF d, of "setitem d k v"] by (simp only: map_of_setitem)
qed

lemma distinct_fold:
  assumes "\<And>x acc. distinct (map fst acc) \<Longrightarrow> distinct (map fst (f x acc))"
  shows "distinct (map fst acc) \<Longrightarrow> distinct (map fst (fold f xs acc))"
  by (induction xs arbitrary: acc) (auto intro: assms)

lemma foldl_map_add:
  "foldl (++) m ms = m ++ foldl (++) Map.empty ms"
proof (induction ms arbitrary: m)
  case Nil
  then show ?case by simp
next
  case (Cons a ms)
  show ?case
    using Cons.IH [of "m ++ a"] Cons.IH [of a] by simp
qed

lemma foldl_map_add_filter:
  assumes "\<And>i. \<not> Q i \<Longrightarrow> h i = Map.empty"
  shows "foldl (++) m (map h (filter Q js)) = foldl (++) m (map h js)"
  by (induction js arbitrary: m) (auto simp: assms)

lemma foldl_singletons:
  assumes "inj_on f (set js)" and "j \<in> set js"
  shows "foldl (++) m (map (\<lambda>i. [f i \<mapsto> g i]) js) (f j) = Some (g j)"
  using assms
proof (induction js rule: rev_induct)
  case Nil
  then show ?case by simp
next
  case (snoc i js)
  show ?case
  proof (cases "i = j")
    case True
    then show ?thesis by simp
  next
    case False
    with snoc.prems have "j \<in> set js" and "f i \<noteq> f j" and "inj_on f (set js)"
      by (auto simp: inj_on_def)
    then show ?thesis
      using snoc.IH by (simp add: map_add_def)
  qed
qed

section \<open>Decimal numerals\<close>

lemma digit_val_digit_char: "d < 10 \<Longrightarrow> digit_val (digit_char d) = d"
proof -
  assume "d < 10"
  then have "d \<in> {0, 1, 2, 3, 4, 5, 6, 7, 8, 9}"
    by auto
  then show ?thesis
    by (auto simp: digit_val_def digit_char_def)
qed

lemma nat_of_digits_snoc: "nat_of_digits (s @ [c]) = 10 * nat_of_digits s + digit_val c"
  by (simp add: nat_of_digits_def)

lemma nat_of_digits_str_nat: "nat_of_digits (str_nat n) = n"
proof (induction n rule: str_nat.induct)
  case (1 n)
  show ?case
  proof (cases "n < 10")
    case True
    then show ?thesis
      by (subst str_nat.simps) (simp add: nat_of_digits_def digit_val_digit_char)
  next
    case False
    then show ?thesis
      using "1.IH" by (subst str_nat.simps) (simp add: nat_of_digits_snoc digit_val_digit_char)
  qed
qed

lemma str_nat_inj: "str_nat i = str_nat j \<Longrightarrow> i = j"
  by (metis nat_of_digits_str_nat)

lemma list_new_key_inj: "list_new_key P i = list_new_key P j \<Longrightarrow> i = j"
  by (auto simp: list_new_key_def dest: str_nat_inj split: if_splits)

section \<open>The traversal as a merge of the children's contributions\<close>

lemma distinct_flatten_dict: "distinct (map fst (flatten_dict obj parent_key sep))"
proof (cases obj)
  case (Scalar s)
  then show ?thesis by (simp add: flatten_dict.simps setitem_def)
next
  case (Dict kvs)
  show ?thesis
    unfolding Dict flatten_dict.simps
    by (rule distinct_fold)
       (auto simp: distinct_setitem distinct_update_dict split: json.splits)
next
  case (List xs)
  show ?thesis
    unfolding List flatten_dict.simps
    by (rule distinct_fold)
       (auto simp: distinct_setitem distinct_update_dict split: json.splits)
qed

text \<open>
  Both branches of the loop body do the same to the mapping read off \<open>items\<close>: the
  assignment of a scalar child is the update with that child's own flattening.
\<close>

lemma map_of_child:
  "map_of (case v of
             Scalar s \<Rightarrow> setitem items key s
           | _ \<Rightarrow> update_dict items (flatten_dict v key sep))
   = map_of items ++ map_of (flatten_dict v key sep)"
  by (cases v)
     (simp_all add: flatten_dict.simps(3) map_of_setitem map_of_update_dict distinct_flatten_dict)

lemma map_of_dict_loop:
  "map_of (fold (\<lambda>(k, v) items.
            (case v of
               Scalar s \<Rightarrow> setitem items (dict_new_key parent_key sep k) s
             | _ \<Rightarrow> update_dict items (flatten_dict v (dict_new_key parent_key sep k) sep)))
          kvs acc)
   = foldl (++) (map_of acc)
       (map (\<lambda>(k, v). map_of (flatten_dict v (dict_new_key parent_key sep k) sep)) kvs)"
proof (induction kvs arbitrary: acc)
  case Nil
  then show ?case by simp
next
  case (Cons p kvs)
  obtain k v where p: "p = (k, v)" by (cases p)
  show ?case
    unfolding p by (simp add: Cons.IH map_of_child)
qed

lemma map_of_list_loop:
  "map_of (fold (\<lambda>(i, item) items.
            (case item of
               Scalar s \<Rightarrow> setitem items (list_new_key parent_key i) s
             | _ \<Rightarrow> update_dict items (flatten_dict item (list_new_key parent_key i) sep)))
          (enumerate n xs) acc)
   = foldl (++) (map_of acc)
       (map (\<lambda>i. map_of (flatten_dict (xs ! i) (list_new_key parent_key (n + i)) sep))
            [0..<length xs])"
proof (induction xs arbitrary: n acc)
  case Nil
  then show ?case by simp
next
  case (Cons x xs)
  have upt: "[0..<length (x # xs)] = 0 # map Suc [0..<length xs]"
    by (simp add: upt_conv_Cons map_Suc_upt del: upt_Suc)
  show ?case
    unfolding upt by (simp add: Cons.IH map_of_child comp_def)
qed

lemma map_of_flatten_Dict:
  "map_of (flatten_dict (Dict kvs) parent_key sep)
   = foldl (++) Map.empty
       (map (\<lambda>(k, v). map_of (flatten_dict v (dict_new_key parent_key sep k) sep)) kvs)"
  by (simp add: flatten_dict.simps map_of_dict_loop)

lemma map_of_flatten_List:
  "map_of (flatten_dict (List xs) parent_key sep)
   = foldl (++) Map.empty
       (map (\<lambda>i. map_of (flatten_dict (xs ! i) (list_new_key parent_key i) sep))
            [0..<length xs])"
  using map_of_list_loop [of parent_key sep 0 xs "[]"] by (simp add: flatten_dict.simps)

lemma map_of_flatten_Dict_append:
  "map_of (flatten_dict (Dict (xs @ ys)) parent_key sep)
   = map_of (flatten_dict (Dict xs) parent_key sep) ++ map_of (flatten_dict (Dict ys) parent_key sep)"
  unfolding map_of_flatten_Dict map_append foldl_append
  by (rule foldl_map_add)

lemma flatten_scalars:
  assumes "i < length ss"
  shows "map_of (flatten_dict (List (map Scalar ss)) P sep) (list_new_key P i) = Some (ss ! i)"
proof -
  have "map (\<lambda>i. map_of (flatten_dict (map Scalar ss ! i) (list_new_key P i) sep)) [0..<length (map Scalar ss)]
      = map (\<lambda>i. [list_new_key P i \<mapsto> ss ! i]) [0..<length ss]"
    by (simp add: flatten_dict.simps(3) map_of_setitem)
  moreover have "inj_on (list_new_key P) (set [0..<length ss])"
    by (auto simp: inj_on_def dest: list_new_key_inj)
  ultimately show ?thesis
    using assms foldl_singletons [of "list_new_key P" "[0..<length ss]" i Map.empty "\<lambda>i. ss ! i"]
    by (simp only: map_of_flatten_List) simp
qed

lemma flatten_empty:
  "flatten_dict (Dict []) P sep = []"
  "flatten_dict (List []) P sep = []"
  by (simp_all add: flatten_dict.simps)

lemma dict_loop_filter:
  "fold (\<lambda>(k, v) items.
            (case v of
               Scalar s \<Rightarrow> setitem items (dict_new_key parent_key sep k) s
             | _ \<Rightarrow> update_dict items (flatten_dict v (dict_new_key parent_key sep k) sep)))
          (filter (\<lambda>(k, v). v \<noteq> Dict [] \<and> v \<noteq> List []) kvs) acc
   = fold (\<lambda>(k, v) items.
            (case v of
               Scalar s \<Rightarrow> setitem items (dict_new_key parent_key sep k) s
             | _ \<Rightarrow> update_dict items (flatten_dict v (dict_new_key parent_key sep k) sep)))
          kvs acc"
proof (induction kvs arbitrary: acc)
  case Nil
  then show ?case by simp
next
  case (Cons p kvs)
  obtain k v where p: "p = (k, v)" by (cases p)
  show ?case
    unfolding p by (auto simp: Cons.IH flatten_empty update_dict_Nil)
qed

lemmas flatten_eval =
  flatten_dict.simps setitem_def update_dict_def dict_new_key_def list_new_key_def
  enumerate_eq_zip str_nat.simps digit_char_def upt_rec

section \<open>Claims about flattening\<close>

text \<open>
  C9: flattening a scalar \<open>v\<close> itself, with prefix \<open>P\<close>, gives the mapping with the one
  entry \<open>P: v\<close>, whatever the separator; \<open>P\<close> may be the empty string.
\<close>

theorem flatten_scalar_single_entry:
  "flatten_dict (Scalar v) P sep = [(P, v)]
   \<and> map_of (flatten_dict (Scalar v) P sep) = [P \<mapsto> v]
   \<and> flatten_dict (Scalar v) [] sep = [([], v)]"
  by (simp add: flatten_dict.simps setitem_def)

text \<open>
  C1: the mapping \<open>{"a": {"b": {"c": 1}}, "a_b": 2}\<close> flattened with separator \<open>_\<close> maps
  \<open>a_b_c\<close> to 1 and \<open>a_b\<close> to 2. In general a key produced by a later-visited entry of
  a mapping overwrites the value an earlier entry produced for it: the result for the
  entries \<open>xs\<close> followed by \<open>ys\<close> holds, at every key, the value from \<open>ys\<close> when \<open>ys\<close>
  produces that key, and the value from \<open>xs\<close> otherwise. A nested \<open>a.b\<close> and a literal
  \<open>a_b\<close> collide, and whichever is visited later wins.
\<close>

theorem flatten_later_visited_wins:
  "flatten_dict
     (Dict [(''a'', Dict [(''b'', Dict [(''c'', Scalar (SInt 1))])]), (''a_b'', Scalar (SInt 2))])
     [] ''_''
   = [(''a_b_c'', SInt 1), (''a_b'', SInt 2)]
   \<and> map_of (flatten_dict (Dict (xs @ ys)) P sep) k
     = (case map_of (flatten_dict (Dict ys) P sep) k of
          Some v \<Rightarrow> Some v
        | None \<Rightarrow> map_of (flatten_dict (Dict xs) P sep) k)
   \<and> flatten_dict (Dict [(''a'', Dict [(''b'', Scalar (SInt 1))]), (''a_b'', Scalar (SInt 2))]) [] ''_''
     = [(''a_b'', SInt 2)]
   \<and> flatten_dict (Dict [(''a_b'', Scalar (SInt 2)), (''a'', Dict [(''b'', Scalar (SInt 1))])]) [] ''_''
     = [(''a_b'', SInt 1)]"
proof -
  have "map_of (flatten_dict (Dict (xs @ ys)) P sep) k
     = (case map_of (flatten_dict (Dict ys) P sep) k of
          Some v \<Rightarrow> Some v
        | None \<Rightarrow> map_of (flatten_dict (Dict xs) P sep) k)"
    by (simp add: map_of_flatten_Dict_append map_add_def)
  moreover have "flatten_dict
     (Dict [(''a'', Dict [(''b'', Dict [(''c'', Scalar (SInt 1))])]), (''a_b'', Scalar (SInt 2))])
     [] ''_''
   = [(''a_b_c'', SInt 1), (''a_b'', SInt 2)]"
    by (simp add: flatten_eval)
  moreover have "flatten_dict
     (Dict [(''a'', Dict [(''b'', Scalar (SInt 1))]), (''a_b'', Scalar (SInt 2))]) [] ''_''
     = [(''a_b'', SInt 2)]"
    by (simp add: flatten_eval)
  moreover have "flatten_dict
     (Dict [(''a_b'', Scalar (SInt 2)), (''a'', Dict [(''b'', Scalar (SInt 1))])]) [] ''_''
     = [(''a_b'', SInt 1)]"
    by (simp add: flatten_eval)
  ultimately show ?thesis
    by (intro conjI)
qed

text \<open>
  C4: a sequence node with prefix \<open>P\<close> gives its element at index \<open>i\<close> (from 0) the child
  key \<open>P_i\<close>, or \<open>str(i)\<close> when \<open>P\<close> is empty, and the result is what the elements'
  own flattenings under these keys give, merged in index order; an element that is a
  mapping or a sequence is flattened recursively under its child key. When all elements
  are scalars, the result maps the key of index \<open>i\<close> to the \<open>i\<close>-th element. In
  particular \<open>{"items": ["x","y","z"]}\<close> yields \<open>items_0\<close>, \<open>items_1\<close>, \<open>items_2\<close>.
\<close>

theorem flatten_sequence_keys:
  "map_of (flatten_dict (List xs) P sep)
     = foldl (++) Map.empty
         (map (\<lambda>i. map_of (flatten_dict (xs ! i) (list_new_key P i) sep)) [0..<length xs])
   \<and> (\<forall>i < length ss.
         map_of (flatten_dict (List (map Scalar ss)) P sep) (list_new_key P i) = Some (ss ! i))
   \<and> (P \<noteq> [] \<longrightarrow> list_new_key P i = P @ ''_'' @ str_nat i)
   \<and> list_new_key [] i = str_nat i
   \<and> str_nat 0 = ''0'' \<and> str_nat 7 = ''7'' \<and> str_nat 12 = ''12''
   \<and> flatten_dict (Dict [(''items'', List [Scalar (SStr ''x''), Scalar (SStr ''y''), Scalar (SStr ''z'')])])
        [] ''_''
     = [(''items_0'', SStr ''x''), (''items_1'', SStr ''y''), (''items_2'', SStr ''z'')]"
proof -
  have "flatten_dict (Dict [(''items'', List [Scalar (SStr ''x''), Scalar (SStr ''y''), Scalar (SStr ''z'')])])
        [] ''_''
     = [(''items_0'', SStr ''x''), (''items_1'', SStr ''y''), (''items_2'', SStr ''z'')]"
    by (simp add: flatten_eval)
  moreover have "str_nat 0 = ''0'' \<and> str_nat 7 = ''7'' \<and> str_nat 12 = ''12''"
    by (simp add: str_nat.simps digit_char_def)
  moreover have "list_new_key [] i = str_nat i"
    and "P \<noteq> [] \<longrightarrow> list_new_key P i = P @ ''_'' @ str_nat i"
    by (simp_all add: list_new_key_def)
  ultimately show ?thesis
    using map_of_flatten_List [of xs P sep] flatten_scalars [of _ ss P sep] by blast
qed

theorem flatten_sequence_keys_witness:
  "(1::nat) < length [SStr ''x'', SStr ''y'']
   \<and> map_of (flatten_dict (List (map Scalar [SStr ''x'', SStr ''y''])) ''p'' ''_'') ''p_1''
     = Some (SStr ''y'')
   \<and> ''p'' \<noteq> [] \<and> list_new_key ''p'' 1 = ''p_1''"
proof -
  have key: "list_new_key ''p'' 1 = ''p_1''"
    by (simp add: list_new_key_def str_nat.simps digit_char_def)
  have "\<forall>i < length [SStr ''x'', SStr ''y''].
         map_of (flatten_dict (List (map Scalar [SStr ''x'', SStr ''y''])) ''p'' ''_'')
           (list_new_key ''p'' i)
         = Some ([SStr ''x'', SStr ''y''] ! i)"
    using flatten_sequence_keys [where P = "''p''" and sep = "''_''" and ss = "[SStr ''x'', SStr ''y'']"]
    by blast
  then have "map_of (flatten_dict (List (map Scalar [SStr ''x'', SStr ''y''])) ''p'' ''_'')
           (list_new_key ''p'' 1)
         = Some ([SStr ''x'', SStr ''y''] ! 1)"
    by simp
  then show ?thesis
    using key by simp
qed

text \<open>
  C10: a child that is an empty mapping or an empty sequence contributes no key.
  Flattening \<open>{}\<close> and \<open>[]\<close> gives the empty mapping under every prefix; a mapping
  flattens to exactly what it flattens to with its empty-container entries removed; a
  sequence flattens to the merge of the contributions of its other elements, at their
  own indexes; and \<open>{"a": {}}\<close> flattens to the empty mapping.
\<close>

theorem flatten_empty_containers_vanish:
  "flatten_dict (Dict []) P sep = []
   \<and> flatten_dict (List []) P sep = []
   \<and> flatten_dict (Dict kvs) P sep
     = flatten_dict (Dict (filter (\<lambda>(k, v). v \<noteq> Dict [] \<and> v \<noteq> List []) kvs)) P sep
   \<and> map_of (flatten_dict (List xs) P sep)
     = foldl (++) Map.empty
         (map (\<lambda>i. map_of (flatten_dict (xs ! i) (list_new_key P i) sep))
            (filter (\<lambda>i. xs ! i \<noteq> Dict [] \<and> xs ! i \<noteq> List []) [0..<length xs]))
   \<and> flatten_dict (Dict [(''a'', Dict [])]) [] ''_'' = []
   \<and> flatten_dict (Dict [(''a'', List [])]) [] ''_'' = []
   \<and> flatten_dict (List [Dict [], List []]) [] ''_'' = []"
proof -
  have "flatten_dict (Dict kvs) P sep
     = flatten_dict (Dict (filter (\<lambda>(k, v). v \<noteq> Dict [] \<and> v \<noteq> List []) kvs)) P sep"
    by (simp add: flatten_dict.simps dict_loop_filter)
  moreover have "map_of (flatten_dict (List xs) P sep)
     = foldl (++) Map.empty
         (map (\<lambda>i. map_of (flatten_dict (xs ! i) (list_new_key P i) sep))
            (filter (\<lambda>i. xs ! i \<noteq> Dict [] \<and> xs ! i \<noteq> List []) [0..<length xs]))"
    unfolding map_of_flatten_List
    by (rule foldl_map_add_filter [symmetric]) (auto simp: flatten_empty)
  moreover have "flatten_dict (Dict [(''a'', Dict [])]) [] ''_'' = []"
    and "flatten_dict (Dict [(''a'', List [])]) [] ''_'' = []"
    and "flatten_dict (List [Dict [], List []]) [] ''_'' = []"
    by (simp_all add: flatten_eval)
  ultimately show ?thesis
    using flatten_empty [of P sep] by (intro conjI)
qed

section \<open>Timestamps\<close>

lemma is_digit_digit_char: "d < 10 \<Longrightarrow> is_digit (digit_char d)"
proof -
  assume "d < 10"
  then have "d \<in> {0, 1, 2, 3, 4, 5, 6, 7, 8, 9}"
    by auto
  then show ?thesis
    by (auto simp: is_digit_def digit_char_def)
qed

lemma str_nat_digits: "list_all is_digit (str_nat n)"
proof (induction n rule: str_nat.induct)
  case (1 n)
  show ?case
  proof (cases "n < 10")
    case True
    then show ?thesis
      by (subst str_nat.simps) (simp add: is_digit_digit_char)
  next
    case False
    then show ?thesis
      using "1.IH" by (subst str_nat.simps) (simp add: is_digit_digit_char)
  qed
qed

lemma length_str_nat: "n < 10 ^ w \<Longrightarrow> 0 < w \<Longrightarrow> length (str_nat n) \<le> w"
proof (induction n arbitrary: w rule: str_nat.induct)
  case (1 n)
  show ?case
  proof (cases "n < 10")
    case True
    then show ?thesis
      using "1.prems" by (subst str_nat.simps) simp
  next
    case False
    obtain v where w: "w = Suc v" using "1.prems" by (cases w) auto
    from False "1.prems" w have "0 < v"
      by (cases v) auto
    moreover from "1.prems" w have "n div 10 < 10 ^ v"
      by (simp add: less_mult_imp_div_less mult.commute)
    ultimately have "length (str_nat (n div 10)) \<le> v"
      using "1.IH" False by simp
    then show ?thesis
      using False w by (subst str_nat.simps) simp
  qed
qed

lemma str_nat_nonempty: "str_nat n \<noteq> []"
  by (subst str_nat.simps) simp

lemma length_zfill: "n < 10 ^ w \<Longrightarrow> 0 < w \<Longrightarrow> length (zfill w n) = w"
  using length_str_nat [of n w] by (simp add: zfill_def)

lemma zfill_digits: "list_all is_digit (zfill w n)"
proof -
  have "is_digit CHR ''0''"
    by (simp add: is_digit_def)
  then have "list_all is_digit (replicate k CHR ''0'')" for k
    by (induction k) simp_all
  then show ?thesis
    by (simp add: zfill_def str_nat_digits)
qed

lemma nat_of_digits_zeros: "nat_of_digits (replicate k CHR ''0'' @ s) = nat_of_digits s"
  by (induction k) (simp_all add: nat_of_digits_def digit_val_def)

lemma nat_of_digits_zfill: "nat_of_digits (zfill w n) = n"
  by (simp add: zfill_def nat_of_digits_zeros nat_of_digits_str_nat)


lemma parse_iso8601_seconds:
  assumes "length Y = 4" "length M = 2" "length D = 2" "length h = 2" "length m = 2" "length s = 2"
    and "list_all is_digit (Y @ M @ D @ h @ m @ s)"
  shows "parse_iso8601 (Y @ ''-'' @ M @ ''-'' @ D @ ''T'' @ h @ '':'' @ m @ '':'' @ s)
    = Some \<lparr> year = nat_of_digits Y, month = nat_of_digits M, day = nat_of_digits D,
              hour = nat_of_digits h, minute = nat_of_digits m, second = nat_of_digits s,
              microsecond = 0 \<rparr>"
  using assms by (simp add: parse_iso8601_def nth_append nat_of_digits_def)

lemma parse_iso8601_micros:
  assumes "length Y = 4" "length M = 2" "length D = 2" "length h = 2" "length m = 2" "length s = 2"
    and "length u = 6"
    and "list_all is_digit (Y @ M @ D @ h @ m @ s @ u)"
  shows "parse_iso8601 (Y @ ''-'' @ M @ ''-'' @ D @ ''T'' @ h @ '':'' @ m @ '':'' @ s @ ''.'' @ u)
    = Some \<lparr> year = nat_of_digits Y, month = nat_of_digits M, day = nat_of_digits D,
              hour = nat_of_digits h, minute = nat_of_digits m, second = nat_of_digits s,
              microsecond = nat_of_digits u \<rparr>"
  using assms by (simp add: parse_iso8601_def nth_append)

lemma parse_isoformat:
  assumes "valid_datetime now"
  shows "parse_iso8601 (isoformat now) = Some now"
proof -
  from assms have len:
    "length (zfill 4 (year now)) = 4" "length (zfill 2 (month now)) = 2"
    "length (zfill 2 (day now)) = 2" "length (zfill 2 (hour now)) = 2"
    "length (zfill 2 (minute now)) = 2" "length (zfill 2 (second now)) = 2"
    "length (zfill 6 (microsecond now)) = 6"
    by (simp_all add: valid_datetime_def length_zfill)
  show ?thesis
  proof (cases "microsecond now = 0")
    case True
    then show ?thesis
      using parse_iso8601_seconds [OF len(1-6)]
      by (simp add: isoformat_def zfill_digits nat_of_digits_zfill)
  next
    case False
    then show ?thesis
      using parse_iso8601_micros [OF len]
      by (simp add: isoformat_def zfill_digits nat_of_digits_zfill)
  qed
qed

lemma map_of_prepare_record:
  "map_of (prepare_record d now) = (map_of (flatten_dict d [] ''_''))(''_timestamp'' \<mapsto> SStr (isoformat now))"
  by (simp add: prepare_record_def map_of_setitem)

lemma distinct_prepare_record: "distinct (map fst (prepare_record d now))"
  by (simp add: prepare_record_def distinct_setitem distinct_flatten_dict)

lemma keys_setitem:
  "map fst (setitem d k v) = (if k \<in> fst ` set d then map fst d else map fst d @ [k])"
  unfolding setitem_def by (induction d) auto

lemma count_one:
  "distinct (map fst d) \<Longrightarrow> map_of d k = Some v \<Longrightarrow> length (filter (\<lambda>(k', v'). k' = k) d) = 1"
proof (induction d)
  case Nil
  then show ?case by simp
next
  case (Cons p d)
  obtain k' v' where p: "p = (k', v')" by (cases p)
  show ?case
  proof (cases "k' = k")
    case True
    with Cons.prems p have "k \<notin> fst ` set d" by auto
    then have "filter (\<lambda>(k', v'). k' = k) d = []"
      by (force simp: filter_empty_conv)
    then show ?thesis using True p by simp
  next
    case False
    then show ?thesis using Cons p by simp
  qed
qed

lemma setitem_blank:
  "map (\<lambda>(k', v'). if k' = k then (k', w) else (k', v')) (setitem d k v)
   = setitem (map (\<lambda>(k', v'). if k' = k then (k', w) else (k', v')) d) k w"
  unfolding setitem_def by (induction d) auto


lemma replicate_numeral: "replicate (numeral k) x = x # replicate (pred_numeral k) x"
  by (simp add: numeral_eq_Suc)

text \<open>
  C3: every prepared record holds under \<open>_timestamp\<close> the capture time in ISO-8601
  form, which reads back to the captured instant with its seconds and microseconds.
  The key is assigned after flattening, so it overwrites a \<open>_timestamp\<close> the document
  itself flattens to, the record has exactly one entry with that key, and every other
  key holds what flattening gave it.
\<close>

theorem prepare_record_timestamp:
  "map_of (prepare_record d now) ''_timestamp'' = Some (SStr (isoformat now))
   \<and> length (filter (\<lambda>(k, v). k = ''_timestamp'') (prepare_record d now)) = 1
   \<and> (valid_datetime now \<longrightarrow> parse_iso8601 (isoformat now) = Some now)
   \<and> (\<forall>k. k \<noteq> ''_timestamp'' \<longrightarrow>
          map_of (prepare_record d now) k = map_of (flatten_dict d [] ''_'') k)
   \<and> prepare_record (Dict [(''_timestamp'', Scalar (SStr ''old'')), (''Version'', Scalar (SStr ''1.54.0''))]) now
     = [(''_timestamp'', SStr (isoformat now)), (''Version'', SStr ''1.54.0'')]"
proof -
  have ts: "map_of (prepare_record d now) ''_timestamp'' = Some (SStr (isoformat now))"
    by (simp add: map_of_prepare_record)
  then have "length (filter (\<lambda>(k, v). k = ''_timestamp'') (prepare_record d now)) = 1"
    by (rule count_one [OF distinct_prepare_record])
  moreover have "\<forall>k. k \<noteq> ''_timestamp'' \<longrightarrow>
          map_of (prepare_record d now) k = map_of (flatten_dict d [] ''_'') k"
    by (simp add: map_of_prepare_record)
  moreover have "prepare_record (Dict [(''_timestamp'', Scalar (SStr ''old'')), (''Version'', Scalar (SStr ''1.54.0''))]) now
     = [(''_timestamp'', SStr (isoformat now)), (''Version'', SStr ''1.54.0'')]"
    by (simp add: prepare_record_def flatten_dict.simps setitem_def dict_new_key_def)
  ultimately show ?thesis
    using ts parse_isoformat [of now] by (intro conjI) blast+
qed

theorem prepare_record_timestamp_witness:
  "valid_datetime \<lparr>year = 2025, month = 3, day = 14, hour = 9, minute = 26, second = 53, microsecond = 589\<rparr>
   \<and> parse_iso8601 ''2025-03-14T09:26:53.000589''
     = Some \<lparr>year = 2025, month = 3, day = 14, hour = 9, minute = 26, second = 53, microsecond = 589\<rparr>
   \<and> ''Version'' \<noteq> ''_timestamp''
   \<and> map_of (prepare_record (Dict [(''Version'', Scalar (SStr ''1.54.0''))])
        \<lparr>year = 2025, month = 3, day = 14, hour = 9, minute = 26, second = 53, microsecond = 589\<rparr>)
        ''Version''
     = Some (SStr ''1.54.0'')"
proof -
  let ?now = "\<lparr>year = 2025, month = 3, day = 14, hour = 9, minute = 26, second = 53, microsecond = 589\<rparr>"
  let ?d = "Dict [(''Version'', Scalar (SStr ''1.54.0''))]"
  have v: "valid_datetime ?now"
    by (simp add: valid_datetime_def)
  have iso: "isoformat ?now = ''2025-03-14T09:26:53.000589''"
    by (simp add: isoformat_def zfill_def str_nat.simps digit_char_def replicate_numeral)
  have fl: "map_of (flatten_dict ?d [] ''_'') ''Version'' = Some (SStr ''1.54.0'')"
    by (simp add: flatten_dict.simps setitem_def dict_new_key_def)
  show ?thesis
    using prepare_record_timestamp [of ?d ?now] v iso fl by simp
qed

section \<open>Frames and the store\<close>














lemma mkdir_parents_files: "mkdir_parents p fs = Inr fs1 \<Longrightarrow> files fs1 = files fs"
  by (auto simp: mkdir_parents_def split: if_splits)

lemma mkdir_parents_dirs:
  "mkdir_parents p fs = Inr fs1 \<Longrightarrow> dirs fs1 = dirs fs \<union> set (ancestors p @ [p])"
  by (auto simp: mkdir_parents_def split: if_splits)

text \<open>What a call that returns has done.\<close>

lemma save_status_returns:
  assumes "save_status self now now' status_data fs = (Inr p, fs')"
  shows "\<exists>fs1 filename df.
      mkdir_parents
        (joinpath (joinpath (base_location self) (str_nat (year now))) (zfill 2 (month now))) fs
      = Inr fs1
    \<and> format_date (file_name_format self) (strftime_Ymd now) = Inr filename
    \<and> p = joinpath
           (joinpath (joinpath (base_location self) (str_nat (year now))) (zfill 2 (month now)))
           filename
    \<and> frame_to_write p fs1 (DataFrame [prepare_record status_data now']) = Inr df
    \<and> to_parquet df p fs1 = Inr fs'"
  using assms unfolding save_status_def Let_def
  by (simp split: sum.splits)


section \<open>Paths\<close>

lemma split_slash_no_slash: "CHR ''/'' \<notin> set s \<Longrightarrow> split_slash s = [s]"
  by (induction s) auto

lemma Path_component:
  assumes "name \<noteq> []" and "name \<noteq> ''.''" and "CHR ''/'' \<notin> set name"
  shows "Path name = \<lparr>root = [], parts = [name]\<rparr>"
proof -
  from assms(1,3) have "take 1 name \<noteq> ''/''"
    by (cases name) auto
  then show ?thesis
    using assms by (simp add: Path_def split_slash_no_slash)
qed

lemma joinpath_component:
  assumes "name \<noteq> []" and "name \<noteq> ''.''" and "CHR ''/'' \<notin> set name"
  shows "joinpath p name = p \<lparr>parts := parts p @ [name]\<rparr>"
  by (simp add: joinpath_def Path_component [OF assms])

lemma not_digit: "\<not> is_digit CHR ''.''" "\<not> is_digit CHR ''/''"
  by (simp_all add: is_digit_def)

lemma digits_component:
  assumes "list_all is_digit s"
  shows "s \<noteq> ''.''" and "CHR ''/'' \<notin> set s"
proof -
  show "s \<noteq> ''.''"
  proof
    assume "s = ''.''"
    with assms have "is_digit CHR ''.''" by simp
    then show False by (simp add: not_digit)
  qed
  show "CHR ''/'' \<notin> set s"
  proof
    assume "CHR ''/'' \<in> set s"
    with assms have "is_digit CHR ''/''" by (simp add: list_all_iff)
    then show False by (simp add: not_digit)
  qed
qed

lemma zfill_nonempty: "zfill w n \<noteq> []"
  by (simp add: zfill_def str_nat_nonempty)

lemma year_month_path:
  "joinpath (joinpath base (str_nat y)) (zfill 2 m)
   = base \<lparr>parts := parts base @ [str_nat y, zfill 2 m]\<rparr>"
proof -
  have "joinpath base (str_nat y) = base \<lparr>parts := parts base @ [str_nat y]\<rparr>"
    by (rule joinpath_component)
       (simp_all add: str_nat_nonempty digits_component [OF str_nat_digits])
  moreover have "joinpath q (zfill 2 m) = q \<lparr>parts := parts q @ [zfill 2 m]\<rparr>" for q
    by (rule joinpath_component)
       (simp_all add: zfill_nonempty digits_component [OF zfill_digits])
  ultimately show ?thesis
    by simp
qed

section \<open>Templates\<close>

lemma format_date_literal:
  "c \<noteq> CHR ''{'' \<Longrightarrow> c \<noteq> CHR ''}'' \<Longrightarrow>
     format_date (c # cs) date = map_sum id ((#) c) (format_date cs date)"
  by (simp add: format_date.simps)

lemma format_date_placeholder:
  "format_date (''{date}'' @ rest) date = map_sum id ((@) date) (format_date rest date)"
  by (simp add: format_date.simps get_field_def is_digit_def)

lemma placeholder_split:
  assumes "at_placeholder (c # cs)"
  shows "c # cs = ''{date}'' @ drop 5 cs"
proof -
  from assms have t: "take 6 (c # cs) = ''{date}''"
    by (simp only: at_placeholder_def)
  have "c # cs = take 6 (c # cs) @ drop 6 (c # cs)"
    by (simp only: append_take_drop_id)
  also have "\<dots> = ''{date}'' @ drop 6 (c # cs)"
    by (simp only: t)
  also have "drop 6 (c # cs) = drop 5 cs"
    by simp
  finally show ?thesis .
qed

lemma format_date_plain:
  "plain_template tmpl \<Longrightarrow> format_date tmpl date = Inr (replace_date tmpl date)"
proof (induction tmpl rule: plain_template.induct)
  case 1
  show ?case
    by (simp add: format_date.simps replace_date.simps)
next
  case (2 c cs)
  show ?case
  proof (cases "at_placeholder (c # cs)")
    case True
    with "2.prems" have "plain_template (drop 5 cs)"
      by (simp add: plain_template.simps)
    with "2.IH"(1) True have "format_date (drop 5 cs) date = Inr (replace_date (drop 5 cs) date)"
      by simp
    moreover have "format_date (c # cs) date = map_sum id ((@) date) (format_date (drop 5 cs) date)"
      using placeholder_split [OF True] format_date_placeholder [of "drop 5 cs" date] by simp
    moreover have "replace_date (c # cs) date = date @ replace_date (drop 5 cs) date"
      using True by (simp add: replace_date.simps)
    ultimately show ?thesis
      by simp
  next
    case False
    with "2.prems" have c: "c \<noteq> CHR ''{''" "c \<noteq> CHR ''}''" and "plain_template cs"
      by (simp_all add: plain_template.simps)
    with "2.IH"(2) False have "format_date cs date = Inr (replace_date cs date)"
      by simp
    moreover have "replace_date (c # cs) date = c # replace_date cs date"
      using False by (simp add: replace_date.simps)
    ultimately show ?thesis
      using c by (simp add: format_date_literal)
  qed
qed

lemma set_replace_date: "set (replace_date tmpl date) \<subseteq> set tmpl \<union> set date"
proof (induction tmpl date rule: replace_date.induct)
  case (1 date)
  show ?case
    by (simp add: replace_date.simps)
next
  case (2 c cs date)
  show ?case
  proof (cases "at_placeholder (c # cs)")
    case True
    have "set (drop 5 cs) \<subseteq> set cs"
      by (rule set_drop_subset)
    with "2.IH"(1) [OF True] True show ?thesis
      by (subst replace_date.simps) auto
  next
    case False
    with "2.IH"(2) [OF False] show ?thesis
      by (subst replace_date.simps) auto
  qed
qed

lemma replace_date_nonempty:
  "tmpl \<noteq> [] \<Longrightarrow> date \<noteq> [] \<Longrightarrow> replace_date tmpl date \<noteq> []"
  by (cases tmpl) (simp_all add: replace_date.simps)

lemma replace_date_not_dot:
  assumes "tmpl \<noteq> ''.''" and "date \<noteq> []" and "list_all is_digit date"
  shows "replace_date tmpl date \<noteq> ''.''"
proof (cases tmpl)
  case Nil
  then show ?thesis
    by (simp add: replace_date.simps)
next
  case (Cons c cs)
  show ?thesis
  proof (cases "at_placeholder (c # cs)")
    case True
    from assms(2,3) obtain d ds where date: "date = d # ds" and "is_digit d"
      by (cases date) auto
    then have "d \<noteq> CHR ''.''"
      using not_digit(1) by blast
    moreover have "replace_date tmpl date = d # ds @ replace_date (drop 5 cs) date"
      using True Cons date by (simp add: replace_date.simps)
    ultimately show ?thesis
      by simp
  next
    case False
    then have r: "replace_date tmpl date = c # replace_date cs date"
      using Cons by (simp add: replace_date.simps)
    show ?thesis
    proof
      assume "replace_date tmpl date = ''.''"
      with r have "c = CHR ''.''" and "replace_date cs date = []"
        by simp_all
      with assms(2) have "cs = []"
        using replace_date_nonempty [of cs date] by blast
      with \<open>c = CHR ''.''\<close> Cons assms(1) show False
        by simp
    qed
  qed
qed

lemma strftime_Ymd_digits: "list_all is_digit (strftime_Ymd now)" "strftime_Ymd now \<noteq> []"
proof -
  show "list_all is_digit (strftime_Ymd now)"
    using zfill_digits [of 4 "year now"] zfill_digits [of 2 "month now"] zfill_digits [of 2 "day now"]
    by (simp add: strftime_Ymd_def)
  show "strftime_Ymd now \<noteq> []"
    by (simp add: strftime_Ymd_def zfill_nonempty)
qed

lemma rendered_name_component:
  assumes "tmpl \<noteq> []" and "tmpl \<noteq> ''.''" and "CHR ''/'' \<notin> set tmpl"
  shows "replace_date tmpl (strftime_Ymd now) \<noteq> []"
    and "replace_date tmpl (strftime_Ymd now) \<noteq> ''.''"
    and "CHR ''/'' \<notin> set (replace_date tmpl (strftime_Ymd now))"
proof -
  show "replace_date tmpl (strftime_Ymd now) \<noteq> []"
    using assms(1) by (rule replace_date_nonempty) (rule strftime_Ymd_digits)
  show "replace_date tmpl (strftime_Ymd now) \<noteq> ''.''"
    using assms(2) strftime_Ymd_digits(2,1) by (rule replace_date_not_dot)
  show "CHR ''/'' \<notin> set (replace_date tmpl (strftime_Ymd now))"
    using set_replace_date [of tmpl "strftime_Ymd now"] assms(3)
      digits_component(2) [OF strftime_Ymd_digits(1), of now]
    by auto
qed

lemma join_slash_append:
  "xs \<noteq> [] \<Longrightarrow> ys \<noteq> [] \<Longrightarrow> join_slash (xs @ ys) = join_slash xs @ ''/'' @ join_slash ys"
proof (induction xs rule: join_slash.induct)
  case 1
  then show ?case by simp
next
  case (2 p)
  then show ?case by (cases ys) simp_all
next
  case (3 p q ps)
  then show ?case by simp
qed

section \<open>Calls that return\<close>

lemma mkdir_parents_no_files:
  "files fs = Map.empty \<Longrightarrow>
     mkdir_parents p fs = Inr (fs \<lparr>dirs := dirs fs \<union> set (ancestors p @ [p])\<rparr>)"
  by (simp add: mkdir_parents_def list_ex_iff)

lemma save_status_fresh:
  assumes "mkdir_parents
             (joinpath (joinpath (base_location self) (str_nat (year now))) (zfill 2 (month now)))
             fs = Inr fs1"
    and "format_date (file_name_format self) (strftime_Ymd now) = Inr filename"
    and "p = joinpath
               (joinpath (joinpath (base_location self) (str_nat (year now))) (zfill 2 (month now)))
               filename"
    and "files fs p = None" and "p \<notin> dirs fs1" and "parent p \<in> dirs fs1"
  shows "save_status self now now' status_data fs
    = (Inr p, fs1 \<lparr>files := (files fs1)(p \<mapsto> Parquet (DataFrame [prepare_record status_data now']))\<rparr>)"
proof -
  have "files fs1 p = None"
    using assms(1,4) mkdir_parents_files by metis
  then have "frame_to_write p fs1 (DataFrame [prepare_record status_data now'])
      = Inr (DataFrame [prepare_record status_data now'])"
    using assms(5) by (simp add: frame_to_write_def exists_def)
  moreover have "to_parquet (DataFrame [prepare_record status_data now']) p fs1
      = Inr (fs1 \<lparr>files := (files fs1)(p \<mapsto> Parquet (DataFrame [prepare_record status_data now']))\<rparr>)"
    using assms(5,6) by (simp add: to_parquet_def)
  ultimately show ?thesis
    using assms(1,2) unfolding save_status_def Let_def
    by (simp add: assms(3))
qed


lemma not_in_ancestors:
  "length (parts q) < length (parts p) \<Longrightarrow> p \<notin> set (ancestors q @ [q])"
  by (auto simp: ancestors_def)


text \<open>
  With a file-name template in which every brace belongs to a \<open>{date}\<close>, and a store that
  holds nothing but possibly the target file, the call returns.
\<close>

lemma save_status_target:
  assumes "plain_template (file_name_format self)"
    and "file_name_format self \<noteq> []"
    and "file_name_format self \<noteq> ''.''"
    and "CHR ''/'' \<notin> set (file_name_format self)"
    and "ym = joinpath (joinpath (base_location self) (str_nat (year now))) (zfill 2 (month now))"
    and "p = base_location self \<lparr>parts := parts (base_location self)
            @ [str_nat (year now), zfill 2 (month now),
               replace_date (file_name_format self) (strftime_Ymd now)]\<rparr>"
  shows "format_date (file_name_format self) (strftime_Ymd now)
         = Inr (replace_date (file_name_format self) (strftime_Ymd now))"
    and "p = joinpath ym (replace_date (file_name_format self) (strftime_Ymd now))"
    and "parent p = ym"
    and "length (parts ym) < length (parts p)"
proof -
  let ?name = "replace_date (file_name_format self) (strftime_Ymd now)"
  show "format_date (file_name_format self) (strftime_Ymd now) = Inr ?name"
    using assms(1) by (rule format_date_plain)
  have ym: "ym = base_location self \<lparr>parts := parts (base_location self)
              @ [str_nat (year now), zfill 2 (month now)]\<rparr>"
    unfolding assms(5) by (rule year_month_path)
  show "p = joinpath ym ?name"
    using rendered_name_component [OF assms(2-4), of now]
    by (simp add: joinpath_component ym assms(6))
  show "parent p = ym"
    by (simp add: parent_def ym assms(6) butlast_append)
  show "length (parts ym) < length (parts p)"
    by (simp add: ym assms(6))
qed

lemma save_status_returns_fresh:
  assumes "plain_template (file_name_format self)"
    and "file_name_format self \<noteq> []"
    and "file_name_format self \<noteq> ''.''"
    and "CHR ''/'' \<notin> set (file_name_format self)"
    and "p = base_location self \<lparr>parts := parts (base_location self)
            @ [str_nat (year now), zfill 2 (month now),
               replace_date (file_name_format self) (strftime_Ymd now)]\<rparr>"
    and "files fs = Map.empty" and "p \<notin> dirs fs"
  shows "save_status self now now' status_data fs
    = (Inr p,
       fs \<lparr>dirs := dirs fs \<union> set (ancestors (parent p) @ [parent p]),
           files := [p \<mapsto> Parquet (DataFrame [prepare_record status_data now'])]\<rparr>)"
proof -
  define ym where
    "ym = joinpath (joinpath (base_location self) (str_nat (year now))) (zfill 2 (month now))"
  note t = save_status_target [OF assms(1-4) ym_def assms(5)]
  define fs1 where "fs1 = fs \<lparr>dirs := dirs fs \<union> set (ancestors ym @ [ym])\<rparr>"
  have mk: "mkdir_parents ym fs = Inr fs1"
    unfolding fs1_def using assms(6) by (rule mkdir_parents_no_files)
  have "p \<notin> dirs fs1" and "parent p \<in> dirs fs1" and "files fs p = None"
    using assms(6,7) t(3) not_in_ancestors [OF t(4)] by (simp_all add: fs1_def)
  then have "save_status self now now' status_data fs
    = (Inr p, fs1 \<lparr>files := (files fs1)(p \<mapsto> Parquet (DataFrame [prepare_record status_data now']))\<rparr>)"
    using save_status_fresh [OF mk [unfolded ym_def] t(1) t(2) [unfolded ym_def]] by blast
  then show ?thesis
    using assms(6) by (simp add: fs1_def t(3))
qed


lemma default_template_plain:
  "plain_template ''tailscale-status-{date}.parquet''"
  "''tailscale-status-{date}.parquet'' \<noteq> []"
  "''tailscale-status-{date}.parquet'' \<noteq> ''.''"
  "CHR ''/'' \<notin> set ''tailscale-status-{date}.parquet''"
  by (simp_all add: plain_template.simps at_placeholder_def)

lemma example_target:
  assumes "year now = 2025" and "month now = 3" and "day now = 14"
  shows "Path ''/data'' \<lparr>parts := parts (Path ''/data'')
            @ [str_nat (year now), zfill 2 (month now),
               replace_date ''tailscale-status-{date}.parquet'' (strftime_Ymd now)]\<rparr>
    = \<lparr>root = ''/'', parts = [''data'', ''2025'', ''03'', ''tailscale-status-20250314.parquet'']\<rparr>"
proof -
  have "Path ''/data'' = \<lparr>root = ''/'', parts = [''data'']\<rparr>"
    by (simp add: Path_def)
  moreover have "str_nat (year now) = ''2025''" and "zfill 2 (month now) = ''03''"
    and "strftime_Ymd now = ''20250314''"
    using assms
    by (simp_all add: strftime_Ymd_def zfill_def str_nat.simps digit_char_def replicate_numeral)
  moreover have "replace_date ''tailscale-status-{date}.parquet'' ''20250314''
      = ''tailscale-status-20250314.parquet''"
    by (simp add: replace_date.simps at_placeholder_def)
  ultimately show ?thesis
    by simp
qed

section \<open>Claims about the store\<close>



lemma joinpath_nothing: "joinpath q [] = q" "joinpath q ''.'' = q"
  by (simp_all add: joinpath_def Path_def)

text \<open>An empty template, or the template \<open>.\<close>, names the month's directory: nothing is written.\<close>

lemma returned_template:
  assumes "save_status self now now' status_data fs = (Inr p, fs')"
  shows "file_name_format self \<noteq> []" and "file_name_format self \<noteq> ''.''"
proof -
  let ?ym = "joinpath (joinpath (base_location self) (str_nat (year now))) (zfill 2 (month now))"
  from save_status_returns [OF assms] obtain fs1 filename df where
    mk: "mkdir_parents ?ym fs = Inr fs1"
    and fmt: "format_date (file_name_format self) (strftime_Ymd now) = Inr filename"
    and p: "p = joinpath ?ym filename"
    and wr: "to_parquet df p fs1 = Inr fs'"
    by blast
  from mk have "?ym \<in> dirs fs1"
    by (simp add: mkdir_parents_dirs)
  moreover from wr have "p \<notin> dirs fs1"
    by (auto simp: to_parquet_def split: if_splits)
  ultimately have ne: "p \<noteq> ?ym"
    by blast
  show "file_name_format self \<noteq> []"
  proof
    assume "file_name_format self = []"
    with fmt have "filename = []"
      by (simp add: format_date.simps)
    with p ne show False
      by (simp add: joinpath_nothing)
  qed
  show "file_name_format self \<noteq> ''.''"
  proof
    assume "file_name_format self = ''.''"
    with fmt have "filename = ''.''"
      by (simp add: format_date.simps)
    with p ne show False
      by (simp add: joinpath_nothing)
  qed
qed


text \<open>
  C5: when a call of \<open>save_status\<close> returns, with a template that is a file name in which
  every brace belongs to a \<open>{date}\<close> placeholder (a name, so without \<open>/\<close>), the
  path returned is the base location followed by three components: the year, the month
  padded to two digits, and the template with \<open>{date}\<close> replaced by \<open>yyyymmdd\<close>, all of
  the clock reading taken at the start of the call. On 2025-03-14 the default template
  renders to \<open>tailscale-status-20250314.parquet\<close> and \<open>ts-{date}-custom.parquet\<close> to
  \<open>ts-20250314-custom.parquet\<close>.
\<close>

theorem save_status_path:
  assumes "save_status self now now' status_data fs = (Inr p, fs')"
    and "plain_template (file_name_format self)"
    and "CHR ''/'' \<notin> set (file_name_format self)"
  shows "root p = root (base_location self)
     \<and> parts p = parts (base_location self)
         @ [str_nat (year now), zfill 2 (month now),
            replace_date (file_name_format self) (strftime_Ymd now)]
     \<and> (parts (base_location self) \<noteq> [] \<longrightarrow>
          str_path p = str_path (base_location self) @ ''/'' @ str_nat (year now) @ ''/''
            @ zfill 2 (month now) @ ''/''
            @ replace_date (file_name_format self) (strftime_Ymd now))
     \<and> (year now = 2025 \<and> month now = 3 \<and> day now = 14 \<longrightarrow>
          str_nat (year now) = ''2025'' \<and> zfill 2 (month now) = ''03''
          \<and> strftime_Ymd now = ''20250314''
          \<and> replace_date ''tailscale-status-{date}.parquet'' (strftime_Ymd now)
            = ''tailscale-status-20250314.parquet''
          \<and> format_date ''ts-{date}-custom.parquet'' (strftime_Ymd now)
            = Inr ''ts-20250314-custom.parquet'')"
proof -
  let ?name = "replace_date (file_name_format self) (strftime_Ymd now)"
  let ?base = "base_location self"
  from save_status_returns [OF assms(1)] obtain filename where
    fmt: "format_date (file_name_format self) (strftime_Ymd now) = Inr filename"
    and p: "p = joinpath (joinpath (joinpath ?base (str_nat (year now))) (zfill 2 (month now))) filename"
    by blast
  from fmt format_date_plain [OF assms(2)] have "filename = ?name"
    by simp
  with p have "p = joinpath (?base \<lparr>parts := parts ?base @ [str_nat (year now), zfill 2 (month now)]\<rparr>) ?name"
    by (simp add: year_month_path)
  also have "\<dots> = ?base \<lparr>parts := parts ?base @ [str_nat (year now), zfill 2 (month now), ?name]\<rparr>"
    using rendered_name_component [OF returned_template [OF assms(1)] assms(3), of now]
    by (simp add: joinpath_component)
  finally have p': "p = ?base \<lparr>parts := parts ?base @ [str_nat (year now), zfill 2 (month now), ?name]\<rparr>" .
  have A: "root p = root ?base"
    and B: "parts p = parts ?base @ [str_nat (year now), zfill 2 (month now), ?name]"
    by (simp_all add: p')
  have C: "parts ?base \<noteq> [] \<longrightarrow>
      str_path p = str_path ?base @ ''/'' @ str_nat (year now) @ ''/'' @ zfill 2 (month now)
        @ ''/'' @ ?name"
    using join_slash_append [of "parts ?base" "[str_nat (year now), zfill 2 (month now), ?name]"]
    by (simp add: p' str_path_def)
  have D: "year now = 2025 \<and> month now = 3 \<and> day now = 14 \<longrightarrow>
          str_nat (year now) = ''2025'' \<and> zfill 2 (month now) = ''03''
          \<and> strftime_Ymd now = ''20250314''
          \<and> replace_date ''tailscale-status-{date}.parquet'' (strftime_Ymd now)
            = ''tailscale-status-20250314.parquet''
          \<and> format_date ''ts-{date}-custom.parquet'' (strftime_Ymd now)
            = Inr ''ts-20250314-custom.parquet''"
  proof
    assume "year now = 2025 \<and> month now = 3 \<and> day now = 14"
    then have d: "strftime_Ymd now = ''20250314''"
      and "str_nat (year now) = ''2025''" and "zfill 2 (month now) = ''03''"
      by (simp_all add: strftime_Ymd_def zfill_def str_nat.simps digit_char_def replicate_numeral)
    moreover have "replace_date ''tailscale-status-{date}.parquet'' ''20250314''
        = ''tailscale-status-20250314.parquet''"
      by (simp add: replace_date.simps at_placeholder_def)
    moreover have "format_date ''ts-{date}-custom.parquet'' ''20250314''
        = Inr ''ts-20250314-custom.parquet''"
      by (simp add: format_date.simps get_field_def is_digit_def)
    ultimately show "str_nat (year now) = ''2025'' \<and> zfill 2 (month now) = ''03''
          \<and> strftime_Ymd now = ''20250314''
          \<and> replace_date ''tailscale-status-{date}.parquet'' (strftime_Ymd now)
            = ''tailscale-status-20250314.parquet''
          \<and> format_date ''ts-{date}-custom.parquet'' (strftime_Ymd now)
            = Inr ''ts-20250314-custom.parquet''"
      by simp
  qed
  from A B C D show ?thesis
    by (intro conjI)
qed

theorem save_status_path_witness:
  "fst (save_status
     \<lparr>base_location = Path ''/data'', file_name_format = ''tailscale-status-{date}.parquet''\<rparr>
     \<lparr>year = 2025, month = 3, day = 14, hour = 9, minute = 26, second = 53, microsecond = 589\<rparr>
     \<lparr>year = 2025, month = 3, day = 14, hour = 9, minute = 26, second = 54, microsecond = 0\<rparr>
     (Dict [(''Version'', Scalar (SStr ''1.54.0''))])
     \<lparr>dirs = {}, files = Map.empty\<rparr>)
   = Inr \<lparr>root = ''/'', parts = [''data'', ''2025'', ''03'', ''tailscale-status-20250314.parquet'']\<rparr>
   \<and> plain_template ''tailscale-status-{date}.parquet''
   \<and> CHR ''/'' \<notin> set ''tailscale-status-{date}.parquet''
   \<and> parts (Path ''/data'') \<noteq> []
   \<and> str_path \<lparr>root = ''/'', parts = [''data'', ''2025'', ''03'', ''tailscale-status-20250314.parquet'']\<rparr>
     = ''/data/2025/03/tailscale-status-20250314.parquet''
   \<and> format_date ''ts-{date}-custom.parquet'' ''20250314'' = Inr ''ts-20250314-custom.parquet''"
proof -
  let ?self = "\<lparr>base_location = Path ''/data'', file_name_format = ''tailscale-status-{date}.parquet''\<rparr>"
  let ?now = "\<lparr>year = 2025, month = 3, day = 14, hour = 9, minute = 26, second = 53, microsecond = 589\<rparr>"
  let ?now' = "\<lparr>year = 2025, month = 3, day = 14, hour = 9, minute = 26, second = 54, microsecond = 0\<rparr>"
  let ?d = "Dict [(''Version'', Scalar (SStr ''1.54.0''))]"
  let ?fs = "\<lparr>dirs = {}, files = Map.empty\<rparr>"
  let ?p = "\<lparr>root = ''/'', parts = [''data'', ''2025'', ''03'', ''tailscale-status-20250314.parquet'']\<rparr>"
  have target: "?p = base_location ?self \<lparr>parts := parts (base_location ?self)
            @ [str_nat (year ?now), zfill 2 (month ?now),
               replace_date (file_name_format ?self) (strftime_Ymd ?now)]\<rparr>"
    using example_target [of ?now] by simp
  have tmpl: "plain_template (file_name_format ?self)" "file_name_format ?self \<noteq> []"
    "file_name_format ?self \<noteq> ''.''" "CHR ''/'' \<notin> set (file_name_format ?self)"
    using default_template_plain by simp_all
  have "files ?fs = Map.empty" and "?p \<notin> dirs ?fs"
    by simp_all
  from save_status_returns_fresh [OF tmpl target this, of ?now' ?d]
  have run: "fst (save_status ?self ?now ?now' ?d ?fs) = Inr ?p"
    by simp
  then have "save_status ?self ?now ?now' ?d ?fs = (Inr ?p, snd (save_status ?self ?now ?now' ?d ?fs))"
    by (metis prod.collapse)
  note path = save_status_path [OF this tmpl(1,4)]
  from path [THEN conjunct2, THEN conjunct2, THEN conjunct2]
  have date: "str_nat (year ?now) = ''2025''" "zfill 2 (month ?now) = ''03''"
    "replace_date ''tailscale-status-{date}.parquet'' (strftime_Ymd ?now)
       = ''tailscale-status-20250314.parquet''"
    "strftime_Ymd ?now = ''20250314''"
    "format_date ''ts-{date}-custom.parquet'' (strftime_Ymd ?now) = Inr ''ts-20250314-custom.parquet''"
    by auto
  have base: "Path ''/data'' = \<lparr>root = ''/'', parts = [''data'']\<rparr>"
    by (simp add: Path_def)
  from path [THEN conjunct2, THEN conjunct2, THEN conjunct1]
  have "str_path ?p = str_path (base_location ?self) @ ''/'' @ str_nat (year ?now) @ ''/''
            @ zfill 2 (month ?now) @ ''/''
            @ replace_date (file_name_format ?self) (strftime_Ymd ?now)"
    by (simp add: base)
  also have "\<dots> = ''/data/2025/03/tailscale-status-20250314.parquet''"
    using date(1-3) by (simp add: base str_path_def)
  finally have "str_path ?p = ''/data/2025/03/tailscale-status-20250314.parquet''" .
  moreover have "format_date ''ts-{date}-custom.parquet'' ''20250314'' = Inr ''ts-20250314-custom.parquet''"
    using date(4,5) by simp
  moreover have "parts (Path ''/data'') \<noteq> []"
    by (simp add: base)
  ultimately show ?thesis
    using run default_template_plain(1,4) by (intro conjI)
qed

theorem save_status_path_counterexample:
  "fst (save_status
     \<lparr>base_location = Path ''/data'', file_name_format = ''/tmp/ts-{date}.parquet''\<rparr>
     \<lparr>year = 2025, month = 3, day = 14, hour = 9, minute = 26, second = 53, microsecond = 589\<rparr>
     \<lparr>year = 2025, month = 3, day = 14, hour = 9, minute = 26, second = 54, microsecond = 0\<rparr>
     (Dict [(''Version'', Scalar (SStr ''1.54.0''))])
     \<lparr>dirs = {Path ''/tmp''}, files = Map.empty\<rparr>)
   = Inr \<lparr>root = ''/'', parts = [''tmp'', ''ts-20250314.parquet'']\<rparr>
   \<and> str_path \<lparr>root = ''/'', parts = [''tmp'', ''ts-20250314.parquet'']\<rparr>
     = ''/tmp/ts-20250314.parquet''
   \<and> str_path (Path ''/data'') @ ''/'' @ ''2025'' @ ''/'' @ ''03'' @ ''/''
       @ replace_date ''/tmp/ts-{date}.parquet'' ''20250314''
     = ''/data/2025/03//tmp/ts-20250314.parquet''
   \<and> format_date ''{{date}}.parquet'' ''20250314'' = Inr ''{date}.parquet''
   \<and> replace_date ''{{date}}.parquet'' ''20250314'' = ''{20250314}.parquet''"
proof -
  let ?self = "\<lparr>base_location = Path ''/data'', file_name_format = ''/tmp/ts-{date}.parquet''\<rparr>"
  let ?now = "\<lparr>year = 2025, month = 3, day = 14, hour = 9, minute = 26, second = 53, microsecond = 589\<rparr>"
  let ?now' = "\<lparr>year = 2025, month = 3, day = 14, hour = 9, minute = 26, second = 54, microsecond = 0\<rparr>"
  let ?d = "Dict [(''Version'', Scalar (SStr ''1.54.0''))]"
  let ?fs = "\<lparr>dirs = {Path ''/tmp''}, files = Map.empty\<rparr>"
  let ?p = "\<lparr>root = ''/'', parts = [''tmp'', ''ts-20250314.parquet'']\<rparr>"
  let ?ym = "joinpath (joinpath (base_location ?self) (str_nat (year ?now))) (zfill 2 (month ?now))"
  let ?fs1 = "?fs \<lparr>dirs := dirs ?fs \<union> set (ancestors ?ym @ [?ym])\<rparr>"
  have date: "strftime_Ymd ?now = ''20250314''"
    by (simp add: strftime_Ymd_def zfill_def str_nat.simps digit_char_def replicate_numeral)
  have ym: "?ym = \<lparr>root = ''/'', parts = [''data'', str_nat 2025, zfill 2 3]\<rparr>"
    by (simp add: year_month_path) (simp add: Path_def)
  have tmp: "Path ''/tmp'' = \<lparr>root = ''/'', parts = [''tmp'']\<rparr>"
    by (simp add: Path_def)
  have mk: "mkdir_parents ?ym ?fs = Inr ?fs1"
    by (rule mkdir_parents_no_files) simp
  have fmt: "format_date (file_name_format ?self) (strftime_Ymd ?now) = Inr ''/tmp/ts-20250314.parquet''"
    by (simp add: date format_date.simps get_field_def is_digit_def)
  have p: "?p = joinpath ?ym ''/tmp/ts-20250314.parquet''"
    unfolding ym by (simp add: joinpath_def Path_def)
  have "?p \<notin> set (ancestors ?ym @ [?ym])"
    unfolding ym by (simp add: ancestors_def upt_rec)
  then have "files ?fs ?p = None" and "?p \<notin> dirs ?fs1" and "parent ?p \<in> dirs ?fs1"
    unfolding tmp by (simp_all add: parent_def)
  from save_status_fresh [OF mk fmt p this, of ?now' ?d]
  have "fst (save_status ?self ?now ?now' ?d ?fs) = Inr ?p"
    by simp
  moreover have "str_path ?p = ''/tmp/ts-20250314.parquet''"
    by (simp add: str_path_def)
  moreover have "str_path (Path ''/data'') @ ''/'' @ ''2025'' @ ''/'' @ ''03'' @ ''/''
       @ replace_date ''/tmp/ts-{date}.parquet'' ''20250314''
     = ''/data/2025/03//tmp/ts-20250314.parquet''"
    by (simp add: str_path_def Path_def replace_date.simps at_placeholder_def)
  moreover have "format_date ''{{date}}.parquet'' ''20250314'' = Inr ''{date}.parquet''"
    by (simp add: format_date.simps)
  moreover have "replace_date ''{{date}}.parquet'' ''20250314'' = ''{20250314}.parquet''"
    by (simp add: replace_date.simps at_placeholder_def)
  ultimately show ?thesis
    by (intro conjI)
qed

section \<open>Configuration\<close>

lemma Config_nonpositive:
  "le_zero v = Inr True \<Longrightarrow>
     Config v b f fs = (Inl (ValueError ''interval must be greater than 0''), fs)"
  by (simp add: Config_def)

lemma Config_returns:
  assumes "Config v b f fs = (Inr cfg, fs')"
  shows "le_zero v = Inr False" and "config.interval cfg = v"
  using assms unfolding Config_def by (auto split: sum.splits if_splits)

lemma missing_fields_Dict:
  "missing_fields (Dict kvs)
   = Inr (filter (\<lambda>field. field \<notin> fst ` set kvs) [''interval'', ''base_location''])"
  by (simp add: missing_fields_def required_fields_def py_in_def)

lemma getitem_Inr:
  "getitem config_dict key = Inr v \<Longrightarrow> \<exists>kvs. config_dict = Dict kvs \<and> map_of kvs key = Some v"
  by (auto simp: getitem_def split: json.splits scalar.splits option.splits)

lemma load_config_document:
  "files fs (config_file cp home) = Some (Yaml config_dict) \<Longrightarrow>
     load_config cp home fs = config_of_document config_dict fs"
  by (simp add: load_config_def exists_def)

lemma load_config_missing:
  assumes "files fs (config_file cp home) = Some (Yaml (Dict kvs))"
    and "''interval'' \<notin> fst ` set kvs \<or> ''base_location'' \<notin> fst ` set kvs"
  shows "load_config cp home fs
    = (Inl (ValueError (''Configuration is missing required fields: ''
         @ join_comma (filter (\<lambda>field. field \<notin> fst ` set kvs)
                         [''interval'', ''base_location'']))), fs)"
proof -
  have "filter (\<lambda>field. field \<notin> fst ` set kvs) [''interval'', ''base_location''] \<noteq> []"
    using assms(2) by auto
  then show ?thesis
    unfolding load_config_document [OF assms(1)]
    by (simp add: config_of_document_def missing_fields_Dict)
qed

lemma load_config_empty:
  assumes "files fs (config_file cp home) = Some (Yaml (Scalar SNone))"
  shows "load_config cp home fs = (Inl (ValueError ''Configuration file is empty''), fs)"
  unfolding load_config_document [OF assms] by (simp add: config_of_document_def)

lemma config_of_document_returns:
  assumes "config_of_document config_dict fs = (Inr cfg, fs')"
  shows "\<exists>kvs. config_dict = Dict kvs \<and> {''interval'', ''base_location''} \<subseteq> fst ` set kvs"
    and "le_zero (config.interval cfg) = Inr False"
proof -
  from assms have missing: "missing_fields config_dict = Inr []"
    by (simp add: config_of_document_def split: if_splits sum.splits)
  with assms obtain i where i: "getitem config_dict ''interval'' = Inr i"
    by (cases "getitem config_dict ''interval''") (simp_all add: config_of_document_def split: if_splits)
  with assms missing obtain b where b: "getitem config_dict ''base_location'' = Inr b"
    by (cases "getitem config_dict ''base_location''")
      (simp_all add: config_of_document_def split: if_splits)
  from i obtain kvs where d: "config_dict = Dict kvs"
    using getitem_Inr by blast
  from assms missing i b have run: "\<exists>f. Config i b f fs = (Inr cfg, fs')"
    unfolding d by (simp add: config_of_document_def get_default_def split: if_splits) blast
  from missing have "{''interval'', ''base_location''} \<subseteq> fst ` set kvs"
    unfolding d missing_fields_Dict by (auto split: if_splits)
  with d show "\<exists>kvs. config_dict = Dict kvs \<and> {''interval'', ''base_location''} \<subseteq> fst ` set kvs"
    by blast
  from run obtain f where "Config i b f fs = (Inr cfg, fs')"
    by blast
  from Config_returns [OF this] show "le_zero (config.interval cfg) = Inr False"
    by simp
qed

lemma load_config_returns:
  assumes "load_config cp home fs = (Inr cfg, fs')"
  shows "\<exists>kvs. files fs (config_file cp home) = Some (Yaml (Dict kvs))
           \<and> {''interval'', ''base_location''} \<subseteq> fst ` set kvs"
    and "le_zero (config.interval cfg) = Inr False"
proof -
  from assms obtain config_dict where
    doc: "files fs (config_file cp home) = Some (Yaml config_dict)"
    unfolding load_config_def Let_def
    by (cases "files fs (config_file cp home)")
      (auto split: if_splits content.splits)
  with assms have run: "config_of_document config_dict fs = (Inr cfg, fs')"
    by (simp add: load_config_document)
  from config_of_document_returns(1) [OF run] doc
  show "\<exists>kvs. files fs (config_file cp home) = Some (Yaml (Dict kvs))
           \<and> {''interval'', ''base_location''} \<subseteq> fst ` set kvs"
    by auto
  from config_of_document_returns(2) [OF run]
  show "le_zero (config.interval cfg) = Inr False" .
qed

text \<open>
  C8: constructing a configuration with an interval that compares \<open><= 0\<close>, an integer,
  a float or \<open>False\<close>, raises \<open>ValueError\<close>, before anything is created. Loading a
  configuration file that holds a mapping without \<open>interval\<close> or without \<open>base_location\<close>
  raises a \<open>ValueError\<close> whose message lists exactly the missing fields, in that order;
  loading an empty file raises the \<open>ValueError\<close> \<open>Configuration file is empty\<close>. No
  configuration is returned in any of these cases: the constructor returns only for an
  interval that does not compare \<open><= 0\<close>, which it keeps, and \<open>load_config\<close> returns
  only from a mapping that has both fields.
\<close>

theorem config_errors:
  "(i \<le> 0 \<longrightarrow>
      Config (Scalar (SInt i)) b f fs = (Inl (ValueError ''interval must be greater than 0''), fs))
   \<and> (float_le_zero w \<longrightarrow>
      Config (Scalar (SFloat w)) b f fs = (Inl (ValueError ''interval must be greater than 0''), fs))
   \<and> Config (Scalar (SBool False)) b f fs = (Inl (ValueError ''interval must be greater than 0''), fs)
   \<and> (files fs (config_file cp home) = Some (Yaml (Dict kvs))
        \<and> (''interval'' \<notin> fst ` set kvs \<or> ''base_location'' \<notin> fst ` set kvs) \<longrightarrow>
      load_config cp home fs
      = (Inl (ValueError (''Configuration is missing required fields: ''
           @ join_comma (filter (\<lambda>field. field \<notin> fst ` set kvs)
                           [''interval'', ''base_location'']))), fs))
   \<and> join_comma [''interval'', ''base_location''] = ''interval, base_location''
   \<and> (files fs (config_file cp home) = Some (Yaml (Scalar SNone)) \<longrightarrow>
      load_config cp home fs = (Inl (ValueError ''Configuration file is empty''), fs))
   \<and> (Config v b f fs = (Inr cfg, fs') \<longrightarrow> le_zero v = Inr False \<and> config.interval cfg = v)
   \<and> (load_config cp home fs = (Inr cfg, fs') \<longrightarrow>
        (\<exists>kvs. files fs (config_file cp home) = Some (Yaml (Dict kvs))
           \<and> {''interval'', ''base_location''} \<subseteq> fst ` set kvs)
        \<and> le_zero (config.interval cfg) = Inr False)"
proof -
  have A: "i \<le> 0 \<longrightarrow>
      Config (Scalar (SInt i)) b f fs = (Inl (ValueError ''interval must be greater than 0''), fs)"
    by (simp add: Config_nonpositive le_zero_def)
  have A': "float_le_zero w \<longrightarrow>
      Config (Scalar (SFloat w)) b f fs = (Inl (ValueError ''interval must be greater than 0''), fs)"
    by (simp add: Config_nonpositive le_zero_def)
  have A'': "Config (Scalar (SBool False)) b f fs
      = (Inl (ValueError ''interval must be greater than 0''), fs)"
    by (simp add: Config_nonpositive le_zero_def)
  have B: "files fs (config_file cp home) = Some (Yaml (Dict kvs))
        \<and> (''interval'' \<notin> fst ` set kvs \<or> ''base_location'' \<notin> fst ` set kvs) \<longrightarrow>
      load_config cp home fs
      = (Inl (ValueError (''Configuration is missing required fields: ''
           @ join_comma (filter (\<lambda>field. field \<notin> fst ` set kvs)
                           [''interval'', ''base_location'']))), fs)"
    using load_config_missing by blast
  have C: "join_comma [''interval'', ''base_location''] = ''interval, base_location''"
    by simp
  have D: "files fs (config_file cp home) = Some (Yaml (Scalar SNone)) \<longrightarrow>
      load_config cp home fs = (Inl (ValueError ''Configuration file is empty''), fs)"
    using load_config_empty by blast
  have E: "Config v b f fs = (Inr cfg, fs') \<longrightarrow> le_zero v = Inr False \<and> config.interval cfg = v"
  proof (intro impI conjI)
    assume run: "Config v b f fs = (Inr cfg, fs')"
    from Config_returns(1) [OF run] show "le_zero v = Inr False" .
    from Config_returns(2) [OF run] show "config.interval cfg = v" .
  qed
  have F: "load_config cp home fs = (Inr cfg, fs') \<longrightarrow>
        (\<exists>kvs. files fs (config_file cp home) = Some (Yaml (Dict kvs))
           \<and> {''interval'', ''base_location''} \<subseteq> fst ` set kvs)
        \<and> le_zero (config.interval cfg) = Inr False"
  proof (intro impI conjI)
    assume run: "load_config cp home fs = (Inr cfg, fs')"
    from load_config_returns(1) [OF run]
    show "\<exists>kvs. files fs (config_file cp home) = Some (Yaml (Dict kvs))
           \<and> {''interval'', ''base_location''} \<subseteq> fst ` set kvs" .
    from load_config_returns(2) [OF run] show "le_zero (config.interval cfg) = Inr False" .
  qed
  from A A' A'' B C D E F show ?thesis
    by (intro conjI)
qed

theorem config_errors_witness:
  "(- 1 :: int) \<le> 0
   \<and> Config (Scalar (SInt (- 1))) (Scalar (SStr ''/data'')) (Scalar (SStr ''ts-{date}.parquet''))
        \<lparr>dirs = {}, files = Map.empty\<rparr>
     = (Inl (ValueError ''interval must be greater than 0''), \<lparr>dirs = {}, files = Map.empty\<rparr>)
   \<and> float_le_zero 0xBFE0000000000000
   \<and> Config (Scalar (SFloat 0xBFE0000000000000)) (Scalar (SStr ''/data''))
        (Scalar (SStr ''ts-{date}.parquet'')) \<lparr>dirs = {}, files = Map.empty\<rparr>
     = (Inl (ValueError ''interval must be greater than 0''), \<lparr>dirs = {}, files = Map.empty\<rparr>)
   \<and> ''base_location'' \<notin> fst ` set [(''interval'', Scalar (SInt 60))]
   \<and> load_config None (Path ''/home/u'')
        \<lparr>dirs = {}, files = [config_file None (Path ''/home/u'')
                                   \<mapsto> Yaml (Dict [(''interval'', Scalar (SInt 60))])]\<rparr>
     = (Inl (ValueError ''Configuration is missing required fields: base_location''),
        \<lparr>dirs = {}, files = [config_file None (Path ''/home/u'')
                                   \<mapsto> Yaml (Dict [(''interval'', Scalar (SInt 60))])]\<rparr>)
   \<and> load_config None (Path ''/home/u'')
        \<lparr>dirs = {}, files = [config_file None (Path ''/home/u'') \<mapsto> Yaml (Scalar SNone)]\<rparr>
     = (Inl (ValueError ''Configuration file is empty''),
        \<lparr>dirs = {}, files = [config_file None (Path ''/home/u'') \<mapsto> Yaml (Scalar SNone)]\<rparr>)
   \<and> (\<exists>fs'. load_config None (Path ''/home/u'')
        \<lparr>dirs = {}, files = [config_file None (Path ''/home/u'')
             \<mapsto> Yaml (Dict [(''interval'', Scalar (SInt 60)),
                              (''base_location'', Scalar (SStr ''/data''))])]\<rparr>
     = (Inr \<lparr>config.interval = Scalar (SInt 60),
              config.base_location = \<lparr>root = ''/'', parts = [''data'']\<rparr>,
              config.file_name_format = Scalar (SStr ''tailscale-status-{date}.parquet'')\<rparr>, fs'))
   \<and> le_zero (Scalar (SInt 60)) = Inr False"
proof -
  let ?fs0 = "\<lparr>dirs = {}, files = Map.empty\<rparr>"
  let ?cf = "config_file None (Path ''/home/u'')"
  let ?kvs = "[(''interval'', Scalar (SInt 60))]"
  let ?fsA = "\<lparr>dirs = {}, files = [?cf \<mapsto> Yaml (Dict ?kvs)]\<rparr>"
  let ?fsE = "\<lparr>dirs = {}, files = [?cf \<mapsto> Yaml (Scalar SNone)]\<rparr>"
  let ?good = "[(''interval'', Scalar (SInt 60)), (''base_location'', Scalar (SStr ''/data''))]"
  let ?fsB = "\<lparr>dirs = {}, files = [?cf \<mapsto> Yaml (Dict ?good)]\<rparr>"
  let ?cfg = "\<lparr>config.interval = Scalar (SInt 60),
              config.base_location = \<lparr>root = ''/'', parts = [''data'']\<rparr>,
              config.file_name_format = Scalar (SStr ''tailscale-status-{date}.parquet'')\<rparr>"
  note inst = config_errors [where i = "- 1" and w = "0xBFE0000000000000"
      and b = "Scalar (SStr ''/data'')" and f = "Scalar (SStr ''ts-{date}.parquet'')"
      and fs = "?fs0"]
  have A: "Config (Scalar (SInt (- 1))) (Scalar (SStr ''/data'')) (Scalar (SStr ''ts-{date}.parquet'')) ?fs0
     = (Inl (ValueError ''interval must be greater than 0''), ?fs0)"
    using inst [THEN conjunct1] by simp
  have neg: "float_le_zero 0xBFE0000000000000"
    by (simp add: float_le_zero_def isnan_def)
  have A': "Config (Scalar (SFloat 0xBFE0000000000000)) (Scalar (SStr ''/data''))
        (Scalar (SStr ''ts-{date}.parquet'')) ?fs0
     = (Inl (ValueError ''interval must be greater than 0''), ?fs0)"
    using inst [THEN conjunct2, THEN conjunct1] neg by blast
  have fileA: "files ?fsA ?cf = Some (Yaml (Dict ?kvs))"
    by simp
  have lacking: "''base_location'' \<notin> fst ` set ?kvs"
    by simp
  have msg: "join_comma (filter (\<lambda>field. field \<notin> fst ` set ?kvs) [''interval'', ''base_location''])
      = ''base_location''"
    by simp
  from config_errors [where fs = "?fsA" and cp = None and home = "Path ''/home/u''" and kvs = "?kvs",
      THEN conjunct2, THEN conjunct2, THEN conjunct2, THEN conjunct1] fileA lacking
  have B: "load_config None (Path ''/home/u'') ?fsA
     = (Inl (ValueError ''Configuration is missing required fields: base_location''), ?fsA)"
    using msg by simp
  have fileE: "files ?fsE ?cf = Some (Yaml (Scalar SNone))"
    by simp
  from config_errors [where fs = "?fsE" and cp = None and home = "Path ''/home/u''",
      THEN conjunct2, THEN conjunct2, THEN conjunct2, THEN conjunct2, THEN conjunct2,
      THEN conjunct1] fileE
  have D: "load_config None (Path ''/home/u'') ?fsE
     = (Inl (ValueError ''Configuration file is empty''), ?fsE)"
    by blast
  have cf: "?cf = \<lparr>root = ''/'', parts = [''home'', ''u'', ''.config'', ''ts-status.yml'']\<rparr>"
    by (simp add: config_file_def joinpath_def Path_def)
  have data: "Path ''/data'' = \<lparr>root = ''/'', parts = [''data'']\<rparr>"
    by (simp add: Path_def)
  have mk: "mkdir_parents \<lparr>root = ''/'', parts = [''data'']\<rparr> ?fsB
      = Inr (?fsB \<lparr>dirs := dirs ?fsB \<union> set (ancestors \<lparr>root = ''/'', parts = [''data'']\<rparr>
                                             @ [\<lparr>root = ''/'', parts = [''data'']\<rparr>])\<rparr>)"
    unfolding cf by (simp add: mkdir_parents_def ancestors_def)
  have "missing_fields (Dict ?good) = Inr []"
    by (simp add: missing_fields_Dict)
  then have "\<exists>fs'. load_config None (Path ''/home/u'') ?fsB = (Inr ?cfg, fs')"
    using mk
    by (simp add: load_config_def exists_def config_of_document_def Config_def le_zero_def
        as_path_def data getitem_def get_default_def)
  then obtain fs' where C: "load_config None (Path ''/home/u'') ?fsB = (Inr ?cfg, fs')"
    by blast
  from config_errors [where fs = "?fsB" and cp = None and home = "Path ''/home/u''"
      and cfg = "?cfg" and fs' = "fs'", THEN conjunct2, THEN conjunct2, THEN conjunct2,
      THEN conjunct2, THEN conjunct2, THEN conjunct2, THEN conjunct2] C
  have "le_zero (config.interval ?cfg) = Inr False"
    by blast
  then have pos: "le_zero (Scalar (SInt 60)) = Inr False"
    by simp
  have neg1: "(- 1 :: int) \<le> 0"
    by simp
  from neg1 A neg A' lacking B D C pos show ?thesis
    by (intro conjI exI [of _ fs'])
qed

text \<open>
  An empty file lacks both required fields, and the error raised for it names neither;
  the same holds of a file that holds a number.
\<close>

theorem config_errors_counterexample:
  "load_config None (Path ''/home/u'')
     \<lparr>dirs = {}, files = [config_file None (Path ''/home/u'') \<mapsto> Yaml (Scalar SNone)]\<rparr>
   = (Inl (ValueError ''Configuration file is empty''),
      \<lparr>dirs = {}, files = [config_file None (Path ''/home/u'') \<mapsto> Yaml (Scalar SNone)]\<rparr>)
   \<and> \<not> contains_str ''Configuration file is empty'' ''interval''
   \<and> \<not> contains_str ''Configuration file is empty'' ''base_location''
   \<and> load_config None (Path ''/home/u'')
     \<lparr>dirs = {}, files = [config_file None (Path ''/home/u'') \<mapsto> Yaml (Scalar (SInt 60))]\<rparr>
   = (Inl (TypeError ''argument is not iterable''),
      \<lparr>dirs = {}, files = [config_file None (Path ''/home/u'') \<mapsto> Yaml (Scalar (SInt 60))]\<rparr>)"
proof -
  have "load_config None (Path ''/home/u'')
     \<lparr>dirs = {}, files = [config_file None (Path ''/home/u'') \<mapsto> Yaml (Scalar SNone)]\<rparr>
   = (Inl (ValueError ''Configuration file is empty''),
      \<lparr>dirs = {}, files = [config_file None (Path ''/home/u'') \<mapsto> Yaml (Scalar SNone)]\<rparr>)"
    by (simp add: load_config_def exists_def config_of_document_def)
  moreover have "\<not> contains_str ''Configuration file is empty'' ''interval''"
    and "\<not> contains_str ''Configuration file is empty'' ''base_location''"
    by simp_all
  moreover have "load_config None (Path ''/home/u'')
     \<lparr>dirs = {}, files = [config_file None (Path ''/home/u'') \<mapsto> Yaml (Scalar (SInt 60))]\<rparr>
   = (Inl (TypeError ''argument is not iterable''),
      \<lparr>dirs = {}, files = [config_file None (Path ''/home/u'') \<mapsto> Yaml (Scalar (SInt 60))]\<rparr>)"
    by (simp add: load_config_def exists_def config_of_document_def missing_fields_def
        required_fields_def py_in_def)
  ultimately show ?thesis
    by (intro conjI)
qed

end
